theory Spec2Isabelle
  imports Main
begin

section \<open>JavaScript values and strings\<close>

text \<open>
  A thrown JavaScript value is either an instance of \<open>Error\<close>, with its \<open>name\<close> and
  \<open>message\<close>, or some other value (a string, a number, a plain object), kept by the
  text \<open>String(value)\<close> gives.  Only the first kind passes \<open>instanceof Error\<close>.
\<close>

datatype js_value = JsError string string | JsOther string

fun instanceofError :: "js_value \<Rightarrow> bool" where
  "instanceofError (JsError n m) = True"
| "instanceofError (JsOther s) = False"

text \<open>\<open>error instanceof Error ? error : new Error(String(error))\<close>\<close>

fun toError :: "js_value \<Rightarrow> js_value" where
  "toError (JsError n m) = JsError n m"
| "toError (JsOther s) = JsError ''Error'' s"

text \<open>
  Strings are lists of code units; the model has the code units below 256.  The line
  feed is \<open>CHR 0x0A\<close>.  \<open>isWhiteSpace\<close> is what \<open>String.prototype.trim\<close> strips, in
  that range: TAB, LF, VT, FF, CR, SP and NBSP.
\<close>

definition LF :: char where
  "LF = CHR 0x0A"

definition isWhiteSpace :: "char \<Rightarrow> bool" where
  "isWhiteSpace c = (c \<in> set [CHR 0x09, CHR 0x0A, CHR 0x0B, CHR 0x0C, CHR 0x0D, CHR 0x20, CHR 0xA0])"

definition trim :: "string \<Rightarrow> string" where
  "trim s = rev (dropWhile isWhiteSpace (rev (dropWhile isWhiteSpace s)))"

fun startsWith :: "string \<Rightarrow> string \<Rightarrow> bool" where
  "startsWith s [] = True"
| "startsWith [] (p # ps) = False"
| "startsWith (c # cs) (p # ps) = (c = p \<and> startsWith cs ps)"

fun js_includes :: "string \<Rightarrow> string \<Rightarrow> bool" where
  "js_includes [] p = (p = [])"
| "js_includes (c # cs) p = (startsWith (c # cs) p \<or> js_includes cs p)"

text \<open>
  \<open>s.split(sep)\<close>: the pieces between the occurrences of \<open>sep\<close>, found from the left
  and not overlapping.  An empty separator cuts between all code units.
\<close>

function js_split :: "string \<Rightarrow> string \<Rightarrow> string list" where
  "js_split sep [] = (if sep = [] then [] else [[]])"
| "js_split sep (c # cs) =
     (if sep = [] then [c] # js_split sep cs
      else if startsWith (c # cs) sep then [] # js_split sep (drop (length sep) (c # cs))
      else (case js_split sep cs of [] \<Rightarrow> [[c]] | r # rs \<Rightarrow> (c # r) # rs))"
  by pat_completeness auto
termination
  by (relation "measure (\<lambda>(sep, s). length s)") auto

text \<open>\<open>lines.join(sep)\<close>\<close>

fun join :: "string \<Rightarrow> string list \<Rightarrow> string" where
  "join sep [] = []"
| "join sep [l] = l"
| "join sep (l # l' # ls) = l @ sep @ join sep (l' # ls)"

text \<open>
  The text of \<open>`${n}`\<close> for an integral number \<open>n\<close> (of magnitude below \<open>10^21\<close>, where
  JavaScript prints all digits).
\<close>

fun nat_to_string :: "nat \<Rightarrow> string" where
  "nat_to_string n =
     (if n < 10 then [''0123456789'' ! n]
      else nat_to_string (n div 10) @ [''0123456789'' ! (n mod 10)])"

declare nat_to_string.simps [simp del]

definition Number_toString :: "int \<Rightarrow> string" where
  "Number_toString i = (if i < 0 then CHR ''-'' # nat_to_string (nat (- i)) else nat_to_string (nat i))"


section \<open>SSE codec\<close>

subsection \<open>\<open>formatSSEMessage\<close> (server/sse-helpers.ts)\<close>

record 'd SSEMessage =
  id :: "string option"
  event :: "string option"
  data :: 'd
  retry :: "int option"

text \<open>
  \<open>JSON.stringify\<close> belongs to the platform and is a parameter: \<open>stringify d\<close> is the text
  that \<open>`${JSON.stringify(d)}`\<close> puts into the line, or the value it throws.
\<close>

definition formatSSEMessage :: "('d \<Rightarrow> js_value + string) \<Rightarrow> 'd SSEMessage \<Rightarrow> js_value + string" where
  "formatSSEMessage stringify message =
     (let lines0 = (case id message of Some i \<Rightarrow> [''id: '' @ i] | None \<Rightarrow> []);
          lines1 = lines0 @ (case retry message of Some r \<Rightarrow> [''retry: '' @ Number_toString r] | None \<Rightarrow> []);
          lines2 = lines1 @ (case event message of Some e \<Rightarrow> [''event: '' @ e] | None \<Rightarrow> [])
      in case stringify (data message) of
           Inl thrown \<Rightarrow> Inl thrown
         | Inr json \<Rightarrow> Inr (join [LF] (lines2 @ [''data: '' @ json]) @ [LF, LF]))"

subsection \<open>\<open>createSSEParser\<close> (client/sse-parser.ts)\<close>

text \<open>
  The parser's state is its buffer.  A call \<open>parse(chunk)\<close> returns the new buffer and
  the callbacks it made, in order: \<open>onMessage(data)\<close>, or \<open>onError(err, rawLine)\<close> with
  the payload cut to 120 code units.  Every \<open>JSON.parse\<close> the parser attempts makes
  exactly one of the two.  \<open>JSON.parse\<close> is a parameter; \<open>None\<close> is a thrown SyntaxError.
  The callbacks themselves are taken not to throw.
\<close>

datatype 'd parser_callback = OnMessage 'd | OnError string

definition parse_line :: "(string \<Rightarrow> 'd option) \<Rightarrow> string \<Rightarrow> 'd parser_callback list" where
  "parse_line JSON_parse line =
     (if startsWith line '':'' then []
      else if startsWith line ''data: '' then
        (let payload = drop 6 line
         in case JSON_parse payload of
              Some d \<Rightarrow> [OnMessage d]
            | None \<Rightarrow> [OnError (take 120 payload)])
      else [])"

definition parse_message :: "(string \<Rightarrow> 'd option) \<Rightarrow> string \<Rightarrow> 'd parser_callback list" where
  "parse_message JSON_parse message =
     (let trimmed = trim message
      in if trimmed = [] then []
         else concat (map (parse_line JSON_parse) (js_split [LF] trimmed)))"

definition parse :: "(string \<Rightarrow> 'd option) \<Rightarrow> string \<Rightarrow> string \<Rightarrow> string \<times> 'd parser_callback list" where
  "parse JSON_parse buffer chunk =
     (let messages = js_split [LF, LF] (buffer @ chunk);
          buffer' = (if messages = [] then [] else last messages)
      in (buffer', concat (map (parse_message JSON_parse) (butlast messages))))"

text \<open>Feeding a list of chunks to a parser, one call each.\<close>

fun feed :: "(string \<Rightarrow> 'd option) \<Rightarrow> string \<Rightarrow> string list \<Rightarrow> string \<times> 'd parser_callback list" where
  "feed JSON_parse buffer [] = (buffer, [])"
| "feed JSON_parse buffer (chunk # chunks) =
     (case parse JSON_parse buffer chunk of
        (buffer', out) \<Rightarrow> (case feed JSON_parse buffer' chunks of (buffer'', out') \<Rightarrow> (buffer'', out @ out')))"

text \<open>
  A fragment of JSON for concrete runs: the literals \<open>true\<close> and \<open>false\<close>.
\<close>

fun lit_stringify :: "bool \<Rightarrow> js_value + string" where
  "lit_stringify True = Inr ''true''"
| "lit_stringify False = Inr ''false''"

definition lit_parse :: "string \<Rightarrow> bool option" where
  "lit_parse s = (if trim s = ''true'' then Some True else if trim s = ''false'' then Some False else None)"

definition example_frame :: "bool SSEMessage" where
  "example_frame = \<lparr>id = Some ''42'', event = Some ''done'', data = True, retry = Some 5000\<rparr>"


section \<open>Stream configuration (types/stream-config.ts)\<close>

text \<open>
  The Number values of the delays are IEEE doubles, and \<open>Math.pow\<close> is approximated by
  the implementation.  The arithmetic is therefore a parameter: the type \<open>'n\<close> of
  Numbers and the operations the code uses on them.  \<open>nearest m e\<close> is the Number a
  decimal literal for \<open>m / 10^e\<close> denotes (and the Number of an integer counter \<open>m\<close>, with
  \<open>e = 0\<close>); \<open>num_mul\<close> and \<open>num_add\<close> are \<open>*\<close> and \<open>+\<close>.
\<close>

record 'n number_ops =
  nearest :: "int \<Rightarrow> nat \<Rightarrow> 'n"
  num_mul :: "'n \<Rightarrow> 'n \<Rightarrow> 'n"
  num_add :: "'n \<Rightarrow> 'n \<Rightarrow> 'n"
  Math_pow :: "'n \<Rightarrow> 'n \<Rightarrow> 'n"
  Math_min :: "'n \<Rightarrow> 'n \<Rightarrow> 'n"
  Math_floor :: "'n \<Rightarrow> 'n"

record 'n RetryConfig =
  maxRetries :: int
  initialDelayMs :: 'n
  maxDelayMs :: 'n
  backoffMultiplier :: 'n
  jitter :: bool
  jitterFactor :: 'n

record CircuitBreakerConfig =
  failureThreshold :: int
  resetTimeoutMs :: int
  successThreshold :: int

definition DEFAULT_RETRY_CONFIG :: "'n number_ops \<Rightarrow> 'n RetryConfig" where
  "DEFAULT_RETRY_CONFIG ops =
     \<lparr>maxRetries = 3, initialDelayMs = nearest ops 1000 0, maxDelayMs = nearest ops 30000 0,
      backoffMultiplier = nearest ops 2 0, jitter = True, jitterFactor = nearest ops 3 1\<rparr>"

definition DEFAULT_CIRCUIT_BREAKER_CONFIG :: CircuitBreakerConfig where
  "DEFAULT_CIRCUIT_BREAKER_CONFIG =
     \<lparr>failureThreshold = 3, resetTimeoutMs = 30000, successThreshold = 1\<rparr>"

text \<open>
  \<open>calculateBackoffDelay(attempt, config)\<close>; the value \<open>Math.random()\<close> returns is the
  argument \<open>rnd\<close>.
\<close>

definition calculateBackoffDelay :: "'n number_ops \<Rightarrow> 'n \<Rightarrow> nat \<Rightarrow> 'n RetryConfig \<Rightarrow> 'n" where
  "calculateBackoffDelay ops rnd attempt config =
     (let exponentialDelay =
            num_mul ops (initialDelayMs config)
              (Math_pow ops (backoffMultiplier config) (nearest ops (int attempt) 0));
          cappedDelay = Math_min ops exponentialDelay (maxDelayMs config)
      in if jitter config then
           (let jitterAmount = num_mul ops (num_mul ops cappedDelay (jitterFactor config)) rnd
            in Math_floor ops (num_add ops cappedDelay jitterAmount))
         else cappedDelay)"

text \<open>
  An arithmetic for concrete runs, which follows a double only while it is an integer
  of magnitude at most \<open>2^53\<close>: there products, sums, minima and floors of doubles are
  exact.  \<open>Integral 0\<close> stands for both zeros.  \<open>Unknown\<close> is any other double, of which
  nothing is said.  Of \<open>Math.pow\<close> only the power 0 is followed, which is 1 for every
  base; the other powers are left to the implementation.
\<close>

datatype tracked = Integral int | Unknown

definition in_range :: "int \<Rightarrow> bool" where
  "in_range v = (\<bar>v\<bar> \<le> 9007199254740992)"

definition exact :: "int \<Rightarrow> tracked" where
  "exact v = (if in_range v then Integral v else Unknown)"

fun tracked_mul :: "tracked \<Rightarrow> tracked \<Rightarrow> tracked" where
  "tracked_mul (Integral a) (Integral b) = (if in_range a \<and> in_range b then exact (a * b) else Unknown)"
| "tracked_mul x y = Unknown"

fun tracked_add :: "tracked \<Rightarrow> tracked \<Rightarrow> tracked" where
  "tracked_add (Integral a) (Integral b) = (if in_range a \<and> in_range b then exact (a + b) else Unknown)"
| "tracked_add x y = Unknown"

fun tracked_pow :: "tracked \<Rightarrow> tracked \<Rightarrow> tracked" where
  "tracked_pow x (Integral e) = (if e = 0 then Integral 1 else Unknown)"
| "tracked_pow x Unknown = Unknown"

fun tracked_min :: "tracked \<Rightarrow> tracked \<Rightarrow> tracked" where
  "tracked_min (Integral a) (Integral b) = (if in_range a \<and> in_range b then Integral (min a b) else Unknown)"
| "tracked_min x y = Unknown"

fun tracked_floor :: "tracked \<Rightarrow> tracked" where
  "tracked_floor (Integral a) = exact a"
| "tracked_floor Unknown = Unknown"

definition tracked_ops :: "tracked number_ops" where
  "tracked_ops =
     \<lparr>nearest = (\<lambda>m e. if e = 0 then exact m else Unknown),
      num_mul = tracked_mul, num_add = tracked_add,
      Math_pow = tracked_pow, Math_min = tracked_min, Math_floor = tracked_floor\<rparr>"


section \<open>Circuit breaker (client/circuit-breaker.ts)\<close>

datatype CircuitState = CLOSED | OPEN | HALF_OPEN

text \<open>
  The calls a breaker makes to the callbacks of its options (\<open>onStateChange\<close>,
  \<open>onFailure\<close>, \<open>onSuccess\<close>) are kept in \<open>calls\<close>; the callbacks are taken not to throw.
  \<open>resetTimeout = Some t\<close> says that the timer set by \<open>scheduleHalfOpen\<close> is pending and
  due at time \<open>t\<close>.  Every function that reads \<open>Date.now()\<close> takes the time as \<open>now\<close>.
\<close>

datatype breaker_note = OnStateChange CircuitState CircuitState | OnFailure js_value int | OnSuccess

record breaker =
  state :: CircuitState
  failures :: int
  successes :: int
  lastFailureTime :: int
  resetTimeout :: "int option"
  calls :: "breaker_note list"

definition createCircuitBreaker :: breaker where
  "createCircuitBreaker =
     \<lparr>state = CLOSED, failures = 0, successes = 0, lastFailureTime = 0, resetTimeout = None, calls = []\<rparr>"

definition setState :: "CircuitState \<Rightarrow> breaker \<Rightarrow> breaker" where
  "setState newState b =
     (if state b \<noteq> newState
      then b\<lparr>state := newState, calls := calls b @ [OnStateChange (state b) newState]\<rparr>
      else b)"

definition scheduleHalfOpen :: "CircuitBreakerConfig \<Rightarrow> int \<Rightarrow> breaker \<Rightarrow> breaker" where
  "scheduleHalfOpen config now b = b\<lparr>resetTimeout := Some (now + resetTimeoutMs config)\<rparr>"

text \<open>The callback of the timer, run when the pending timer is due.\<close>

definition timerFires :: "int \<Rightarrow> breaker \<Rightarrow> breaker" where
  "timerFires now b =
     (case resetTimeout b of
        None \<Rightarrow> b
      | Some due \<Rightarrow>
          if due \<le> now then (setState HALF_OPEN (b\<lparr>resetTimeout := None\<rparr>))\<lparr>successes := 0\<rparr>
          else b)"

definition recordFailure :: "CircuitBreakerConfig \<Rightarrow> int \<Rightarrow> js_value \<Rightarrow> breaker \<Rightarrow> breaker" where
  "recordFailure config now error b =
     (let b1 = b\<lparr>failures := failures b + 1, lastFailureTime := now,
                 calls := calls b @ [OnFailure error (failures b + 1)]\<rparr>
      in if failures b1 \<ge> failureThreshold config
         then scheduleHalfOpen config now (setState OPEN b1)
         else b1)"

definition reset :: "breaker \<Rightarrow> breaker" where
  "reset b = setState CLOSED (b\<lparr>resetTimeout := None, failures := 0, successes := 0, lastFailureTime := 0\<rparr>)"

definition recordSuccess :: "CircuitBreakerConfig \<Rightarrow> breaker \<Rightarrow> breaker" where
  "recordSuccess config b =
     (if state b = HALF_OPEN then
        (let b1 = b\<lparr>successes := successes b + 1\<rparr>
         in if successes b1 \<ge> successThreshold config
            then (let b2 = reset b1 in b2\<lparr>calls := calls b2 @ [OnSuccess]\<rparr>)
            else b1)
      else if state b = CLOSED then b\<lparr>failures := 0, calls := calls b @ [OnSuccess]\<rparr>
      else b)"

definition forceOpen :: "CircuitBreakerConfig \<Rightarrow> int \<Rightarrow> breaker \<Rightarrow> breaker" where
  "forceOpen config now b =
     scheduleHalfOpen config now (setState OPEN (b\<lparr>failures := failureThreshold config\<rparr>))"

definition canPass :: "breaker \<Rightarrow> bool" where
  "canPass b = (case state b of CLOSED \<Rightarrow> True | OPEN \<Rightarrow> False | HALF_OPEN \<Rightarrow> True)"

definition getState :: "breaker \<Rightarrow> CircuitState" where
  "getState b = state b"

definition getFailures :: "breaker \<Rightarrow> int" where
  "getFailures b = failures b"

text \<open>
  \<open>execute(operation)\<close>.  The operation acts on a world \<open>'w\<close> outside the breaker and
  either returns or throws; a run that does not call it leaves the world as it was.
  \<open>now\<close> is the time of the call, \<open>settled\<close> the time at which the operation has settled.
  The call is one step: no other call and no timer runs while the operation is awaited.
  \<open>Refused\<close> is the breaker's own \<open>CircuitOpenError\<close>, with its message, \<open>resetTimeoutMs\<close>
  and \<open>failures\<close>.
\<close>

datatype 'a execute_result = Returned 'a | Rethrown js_value | Refused string int int

definition Math_ceil_div_1000 :: "int \<Rightarrow> int" where
  "Math_ceil_div_1000 ms = - ((- ms) div 1000)"

definition execute ::
  "CircuitBreakerConfig \<Rightarrow> (js_value \<Rightarrow> bool) option \<Rightarrow> int \<Rightarrow> ('w \<Rightarrow> (js_value + 'a) \<times> 'w) \<Rightarrow> int
     \<Rightarrow> breaker \<Rightarrow> 'w \<Rightarrow> 'a execute_result \<times> breaker \<times> 'w" where
  "execute config isFailureOpt now operation settled b w =
     (if \<not> canPass b then
        (let timeSinceLastFailure = now - lastFailureTime b;
             remainingTimeout = max 0 (resetTimeoutMs config - timeSinceLastFailure)
         in (Refused (''Circuit breaker is open. Retry in '' @ Number_toString (Math_ceil_div_1000 remainingTimeout) @ ''s'')
               remainingTimeout (failures b), b, w))
      else
        (case operation w of
           (Inr result, w') \<Rightarrow> (Returned result, recordSuccess config b, w')
         | (Inl error, w') \<Rightarrow>
             (let isFailure = (case isFailureOpt of Some f \<Rightarrow> f | None \<Rightarrow> (\<lambda>e. True))
              in (Rethrown error,
                  if instanceofError error \<and> isFailure error then recordFailure config settled error b else b,
                  w'))))"

text \<open>Recording a run of failures, each with the time it is recorded at.\<close>

fun recordFailures :: "CircuitBreakerConfig \<Rightarrow> (int \<times> js_value) list \<Rightarrow> breaker \<Rightarrow> breaker" where
  "recordFailures config [] b = b"
| "recordFailures config ((now, error) # rest) b = recordFailures config rest (recordFailure config now error b)"

text \<open>
  Whether the refusal of an open breaker can report the time left until the probe:
  the pending timer is due \<open>resetTimeoutMs\<close> after the last recorded failure.
\<close>

definition timer_aligned :: "CircuitBreakerConfig \<Rightarrow> breaker \<Rightarrow> bool" where
  "timer_aligned config b =
     (state b = OPEN \<longrightarrow> resetTimeout b = Some (lastFailureTime b + resetTimeoutMs config))"


text \<open>
  The calls of the breaker's interface, to run it from its creation.
\<close>

datatype ('a, 'w) breaker_call =
    Execute "(js_value \<Rightarrow> bool) option" int "'w \<Rightarrow> (js_value + 'a) \<times> 'w" int
  | TimerFires int
  | Reset
  | ForceOpen int

fun is_ForceOpen :: "('a, 'w) breaker_call \<Rightarrow> bool" where
  "is_ForceOpen (ForceOpen now) = True"
| "is_ForceOpen c = False"

fun breaker_step :: "CircuitBreakerConfig \<Rightarrow> ('a, 'w) breaker_call \<Rightarrow> breaker \<times> 'w \<Rightarrow> breaker \<times> 'w" where
  "breaker_step config (Execute isFailureOpt now operation settled) (b, w) =
     snd (execute config isFailureOpt now operation settled b w)"
| "breaker_step config (TimerFires now) (b, w) = (timerFires now b, w)"
| "breaker_step config Reset (b, w) = (reset b, w)"
| "breaker_step config (ForceOpen now) (b, w) = (forceOpen config now b, w)"

fun breaker_run :: "CircuitBreakerConfig \<Rightarrow> ('a, 'w) breaker_call list \<Rightarrow> breaker \<times> 'w \<Rightarrow> breaker \<times> 'w" where
  "breaker_run config [] s = s"
| "breaker_run config (c # cs) s = breaker_run config cs (breaker_step config c s)"


section \<open>Reconnection strategy (client/reconnect-strategy.ts)\<close>

text \<open>
  \<open>toLowerCase\<close> on the code units below 256: the letters A to Z, and the letters from
  \<open>0xC0\<close> to \<open>0xDE\<close> but the multiplication sign \<open>0xD7\<close>, move up by 32.
\<close>

definition toLowerCase_unit :: "char \<Rightarrow> char" where
  "toLowerCase_unit c =
     (let n = (of_char c :: nat)
      in if (65 \<le> n \<and> n \<le> 90) \<or> (192 \<le> n \<and> n \<le> 222 \<and> n \<noteq> 215) then char_of (n + 32) else c)"

definition toLowerCase :: "string \<Rightarrow> string" where
  "toLowerCase s = map toLowerCase_unit s"

definition NETWORK_ERROR_PATTERNS :: "string list" where
  "NETWORK_ERROR_PATTERNS =
     [''network'', ''failed to fetch'', ''load failed'', ''err_network_changed'', ''networkerror'',
      ''aborted'', ''timeout'', ''econnreset'', ''econnrefused'', ''enetunreach'']"

fun isNetworkError :: "js_value \<Rightarrow> bool" where
  "isNetworkError (JsOther s) = False"
| "isNetworkError (JsError n m) = list_ex (\<lambda>pattern. js_includes (toLowerCase m) pattern) NETWORK_ERROR_PATTERNS"

fun isCancellationError :: "js_value \<Rightarrow> bool" where
  "isCancellationError (JsOther s) = False"
| "isCancellationError (JsError n m) = (js_includes (toLowerCase m) ''aborted'' \<or> n = ''AbortError'')"

text \<open>
  What a retried operation meets, by the number \<open>i\<close> (from 0) of the invocation:
  the outcome of the operation, whether \<open>signal?.aborted\<close> holds when its error is caught
  (never, without a signal), whether the signal has fired by the end of the sleep that
  follows, and what \<open>Math.random()\<close> returns for the delay.
\<close>

record ('a, 'n) retry_env =
  operation :: "nat \<Rightarrow> js_value + 'a"
  signalAborted :: "nat \<Rightarrow> bool"
  abortedInSleep :: "nat \<Rightarrow> bool"
  random :: "nat \<Rightarrow> 'n"

text \<open>
  \<open>withRetry(operation, options)\<close>: the loop from a given \<open>attempt\<close> on.  The result is
  what the call returns (\<open>Inr\<close>) or throws (\<open>Inl\<close>), the number of invocations of the
  operation so far, and the calls \<open>onRetry(attempt, delayMs, error)\<close> made.
\<close>

function withRetry_loop ::
  "'n number_ops \<Rightarrow> 'n RetryConfig \<Rightarrow> (js_value \<Rightarrow> bool) \<Rightarrow> ('a, 'n) retry_env \<Rightarrow> nat \<Rightarrow> js_value option
     \<Rightarrow> (js_value + 'a) \<times> nat \<times> (nat \<times> 'n \<times> js_value) list" where
  "withRetry_loop ops config shouldRetryFn env attempt lastError =
     (if int attempt \<le> maxRetries config then
        (case operation env attempt of
           Inr result \<Rightarrow> (Inr result, attempt + 1, [])
         | Inl error \<Rightarrow>
             if isCancellationError error \<or> signalAborted env attempt then (Inl error, attempt + 1, [])
             else if \<not> shouldRetryFn error \<or> int attempt \<ge> maxRetries config then (Inl error, attempt + 1, [])
             else
               (let delay = calculateBackoffDelay ops (random env attempt) attempt config;
                    onRetry = (attempt + 1, delay, toError error)
                in if abortedInSleep env attempt then (Inl (JsError ''Error'' ''Aborted''), attempt + 1, [onRetry])
                   else (case withRetry_loop ops config shouldRetryFn env (attempt + 1) (Some (toError error)) of
                           (r, n, retries) \<Rightarrow> (r, n, onRetry # retries))))
      else
        (Inl (case lastError of Some e \<Rightarrow> e | None \<Rightarrow> JsError ''Error'' ''Max retries exceeded''), attempt, []))"
  by pat_completeness auto
termination
  by (relation "measure (\<lambda>(ops, config, f, env, attempt, lastError). nat (maxRetries config + 1 - int attempt))") auto

declare withRetry_loop.simps [simp del]

definition withRetry ::
  "'n number_ops \<Rightarrow> 'n RetryConfig \<Rightarrow> (js_value \<Rightarrow> bool) option \<Rightarrow> ('a, 'n) retry_env
     \<Rightarrow> (js_value + 'a) \<times> nat \<times> (nat \<times> 'n \<times> js_value) list" where
  "withRetry ops config shouldRetryOpt env =
     withRetry_loop ops config (case shouldRetryOpt of Some f \<Rightarrow> f | None \<Rightarrow> isNetworkError) env 0 None"

text \<open>
  \<open>createReconnectionManager(options).execute(operation, signal)\<close>.  The manager's state
  and the calls to \<open>onReconnecting\<close>, \<open>onConnected\<close> and \<open>onFailed\<close> are explicit.
\<close>

record 'n ReconnectionState =
  attempt :: nat
  maxAttempts :: int
  nextDelayMs :: 'n
  lastError :: "js_value option"

datatype 'n manager_call =
    OnReconnecting nat int 'n "js_value option"
  | OnConnected
  | OnFailed js_value

definition manager_reset :: "'n RetryConfig \<Rightarrow> 'n ReconnectionState" where
  "manager_reset config =
     \<lparr>attempt = 0, maxAttempts = maxRetries config, nextDelayMs = initialDelayMs config, lastError = None\<rparr>"

definition shouldRetry :: "'n RetryConfig \<Rightarrow> 'n ReconnectionState \<Rightarrow> js_value \<Rightarrow> bool" where
  "shouldRetry config st error = (isNetworkError error \<and> int (attempt st) < maxRetries config)"

definition getDelay :: "'n number_ops \<Rightarrow> 'n RetryConfig \<Rightarrow> 'n \<Rightarrow> 'n ReconnectionState \<Rightarrow> 'n" where
  "getDelay ops config rnd st = calculateBackoffDelay ops rnd (attempt st) config"

function manager_loop ::
  "'n number_ops \<Rightarrow> 'n RetryConfig \<Rightarrow> ('a, 'n) retry_env \<Rightarrow> nat \<Rightarrow> 'n ReconnectionState
     \<Rightarrow> (js_value + 'a) \<times> 'n ReconnectionState \<times> nat \<times> 'n manager_call list" where
  "manager_loop ops config env i st =
     (case operation env i of
        Inr result \<Rightarrow> (Inr result, manager_reset config, i + 1, [OnConnected])
      | Inl error \<Rightarrow>
          (let st1 = st\<lparr>lastError := Some (toError error)\<rparr>
           in if isCancellationError error \<or> signalAborted env i then (Inl error, st1, i + 1, [])
              else if \<not> shouldRetry config st1 error then (Inl error, st1, i + 1, [OnFailed (toError error)])
              else
                (let delay = getDelay ops config (random env i) st1;
                     st2 = st1\<lparr>nextDelayMs := delay\<rparr>;
                     onReconnecting = OnReconnecting (attempt st2 + 1) (maxRetries config) delay (lastError st2)
                 in if abortedInSleep env i then (Inl (JsError ''Error'' ''Aborted''), st2, i + 1, [onReconnecting])
                    else (case manager_loop ops config env (i + 1) (st2\<lparr>attempt := attempt st2 + 1\<rparr>) of
                            (r, st', n, cs) \<Rightarrow> (r, st', n, onReconnecting # cs)))))"
  by pat_completeness auto
termination
  by (relation "measure (\<lambda>(ops, config, env, i, st). nat (maxRetries config - int (attempt st)))")
     (auto simp: shouldRetry_def)

declare manager_loop.simps [simp del]

definition manager_execute ::
  "'n number_ops \<Rightarrow> 'n RetryConfig \<Rightarrow> ('a, 'n) retry_env
     \<Rightarrow> (js_value + 'a) \<times> 'n ReconnectionState \<times> nat \<times> 'n manager_call list" where
  "manager_execute ops config env = manager_loop ops config env 0 (manager_reset config)"


section \<open>Stream orchestrator (server/stream-orchestrator.ts)\<close>

record HeartbeatConfig =
  intervalMs :: int
  enabled :: bool
  message :: "string option"

definition DEFAULT_HEARTBEAT_CONFIG :: HeartbeatConfig where
  "DEFAULT_HEARTBEAT_CONFIG = \<lparr>intervalMs = 5000, enabled = True, message = Some ''heartbeat''\<rparr>"

text \<open>
  The configuration, after the defaults are merged in.  \<open>signal = None\<close>: no abort
  signal was given; \<open>signal = Some a\<close>: one was given, and \<open>a\<close> says whether it had fired
  when the orchestrator was constructed.  The logger and the observer are not fields:
  the calls made to them are written to the list of effects.
\<close>

record StreamOrchestratorConfig =
  heartbeat :: HeartbeatConfig
  completePhase :: string
  errorPhase :: string
  signal :: "bool option"

definition DEFAULT_CONFIG :: StreamOrchestratorConfig where
  "DEFAULT_CONFIG =
     \<lparr>heartbeat = DEFAULT_HEARTBEAT_CONFIG, completePhase = ''complete'', errorPhase = ''error'',
      signal = None\<rparr>"

text \<open>An update (types/sse-events.ts): \<open>'r\<close> is the type of results, \<open>'m\<close> of metadata.\<close>

record ('r, 'm) SSEUpdate =
  phase :: string
  message :: "string option"
  error :: "string option"
  result :: "'r option"
  metadata :: "'m option"

text \<open>
  The private fields of a \<open>StreamOrchestrator\<close>.  \<open>heartbeatInterval\<close> and \<open>abortHandler\<close>
  say whether the interval timer and the listener on the signal are set.
\<close>

record orchestrator =
  isClosed :: bool
  isAborted :: bool
  heartbeatInterval :: bool
  startTime :: int
  bytesSent :: nat
  lastError :: "js_value option"
  abortHandler :: bool

text \<open>
  What an orchestrator does to the outside, in order: the calls \<open>controller.enqueue\<close> and
  \<open>controller.close\<close> with what they threw, if anything, the calls to the logger and to
  the hooks of the observer.  The logger and the hooks are taken not to throw.
\<close>

datatype 'b effect =
    Enqueue "'b list" "js_value option"
  | ControllerClose "js_value option"
  | Logger string
  | ObsStreamStart
  | ObsStreamEnd int bool "js_value option"
  | ObsUpdateSent string nat
  | ObsHeartbeat
  | ObsError js_value
  | ObsAbort string

text \<open>
  The platform: \<open>JSON.stringify\<close> on updates (as for \<open>formatSSEMessage\<close>),
  \<open>TextEncoder.encode\<close>, and the controller of the stream, with a state \<open>'k\<close> of its own;
  \<open>enqueue\<close> and \<open>close\<close> return what they throw, if anything, and the controller's new
  state.
\<close>

record ('u, 'k, 'b) platform =
  JSON_stringify :: "'u \<Rightarrow> js_value + string"
  encode :: "string \<Rightarrow> 'b list"
  controller_enqueue :: "'b list \<Rightarrow> 'k \<Rightarrow> js_value option \<times> 'k"
  controller_close :: "'k \<Rightarrow> js_value option \<times> 'k"

text \<open>An orchestrator together with its controller and the effects so far.\<close>

record ('k, 'b) session =
  orch :: orchestrator
  controller :: 'k
  effects :: "'b effect list"

definition emit :: "'b effect list \<Rightarrow> ('k, 'b) session \<Rightarrow> ('k, 'b) session" where
  "emit es s = s\<lparr>effects := effects s @ es\<rparr>"

definition stopHeartbeat :: "('k, 'b) session \<Rightarrow> ('k, 'b) session" where
  "stopHeartbeat s =
     (if heartbeatInterval (orch s) then s\<lparr>orch := (orch s)\<lparr>heartbeatInterval := False\<rparr>\<rparr> else s)"

definition cleanupAbortListener :: "StreamOrchestratorConfig \<Rightarrow> ('k, 'b) session \<Rightarrow> ('k, 'b) session" where
  "cleanupAbortListener config s =
     (if signal config \<noteq> None \<and> abortHandler (orch s)
      then s\<lparr>orch := (orch s)\<lparr>abortHandler := False\<rparr>\<rparr>
      else s)"

definition handleAbort ::
  "('u, 'k, 'b) platform \<Rightarrow> StreamOrchestratorConfig \<Rightarrow> int \<Rightarrow> string \<Rightarrow> ('k, 'b) session \<Rightarrow> ('k, 'b) session" where
  "handleAbort pf config now reason s =
     (if isClosed (orch s) then s
      else
        (let s1 = s\<lparr>orch := (orch s)\<lparr>isAborted := True, lastError := Some (JsError ''Error'' reason)\<rparr>\<rparr>;
             s2 = stopHeartbeat s1;
             s3 = s2\<lparr>orch := (orch s2)\<lparr>isClosed := True\<rparr>\<rparr>;
             durationMs = now - startTime (orch s3);
             s4 = emit [ObsAbort reason, ObsStreamEnd durationMs False (lastError (orch s3))] s3;
             s5 = (case controller_close pf (controller s4) of
                     (thrown, k) \<Rightarrow> emit [ControllerClose thrown] (s4\<lparr>controller := k\<rparr>))
         in cleanupAbortListener config s5))"

definition newStreamOrchestrator ::
  "('u, 'k, 'b) platform \<Rightarrow> StreamOrchestratorConfig \<Rightarrow> int \<Rightarrow> 'k \<Rightarrow> ('k, 'b) session" where
  "newStreamOrchestrator pf config now k =
     (let s0 = \<lparr>orch = \<lparr>isClosed = False, isAborted = False, heartbeatInterval = False, startTime = now,
                         bytesSent = 0, lastError = None, abortHandler = False\<rparr>,
                controller = k, effects = []\<rparr>;
          s1 = (case signal config of
                  None \<Rightarrow> s0
                | Some aborted \<Rightarrow>
                    if aborted then handleAbort pf config now ''Stream aborted'' s0
                    else s0\<lparr>orch := (orch s0)\<lparr>abortHandler := True\<rparr>\<rparr>)
      in emit [ObsStreamStart] s1)"

text \<open>The listener on the signal, when the signal fires.\<close>

definition signalFires ::
  "('u, 'k, 'b) platform \<Rightarrow> StreamOrchestratorConfig \<Rightarrow> int \<Rightarrow> ('k, 'b) session \<Rightarrow> ('k, 'b) session" where
  "signalFires pf config now s =
     (if abortHandler (orch s) then handleAbort pf config now ''Stream aborted'' s else s)"

definition sendUpdate_failed :: "string \<Rightarrow> js_value \<Rightarrow> ('k, 'b) session \<Rightarrow> ('k, 'b) session" where
  "sendUpdate_failed updatePhase thrown s =
     (let s1 = s\<lparr>orch := (orch s)\<lparr>isClosed := True, lastError := Some (toError thrown)\<rparr>\<rparr>
      in emit [ObsError (toError thrown),
               (case thrown of
                  JsError n m \<Rightarrow>
                    if js_includes m ''Controller is already closed''
                    then Logger (''[stream-orchestrator] Stream closed by client, skipping update: '' @ updatePhase)
                    else Logger ''[stream-orchestrator] Unexpected stream error:''
                | JsOther v \<Rightarrow> Logger ''[stream-orchestrator] Unexpected stream error:'')] s1)"

definition sendUpdate ::
  "(('r, 'm) SSEUpdate, 'k, 'b) platform \<Rightarrow> ('r, 'm) SSEUpdate \<Rightarrow> ('k, 'b) session \<Rightarrow> ('k, 'b) session" where
  "sendUpdate pf update s =
     (if isClosed (orch s)
      then emit [Logger (''[stream-orchestrator] Stream closed, skipping update: '' @ phase update)] s
      else
        (case JSON_stringify pf update of
           Inl thrown \<Rightarrow> sendUpdate_failed (phase update) thrown s
         | Inr json \<Rightarrow>
             (let text = ''data: '' @ json @ [LF, LF];
                  encoded = encode pf text
              in case controller_enqueue pf encoded (controller s) of
                   (Some thrown, k) \<Rightarrow>
                     sendUpdate_failed (phase update) thrown
                       (emit [Enqueue encoded (Some thrown)] (s\<lparr>controller := k\<rparr>))
                 | (None, k) \<Rightarrow>
                     (let s1 = emit [Enqueue encoded None] (s\<lparr>controller := k\<rparr>);
                          s2 = s1\<lparr>orch := (orch s1)\<lparr>bytesSent := bytesSent (orch s1) + length encoded\<rparr>\<rparr>
                      in emit [ObsUpdateSent (phase update) (length encoded)] s2))))"

definition sendProgress ::
  "(('r, 'm) SSEUpdate, 'k, 'b) platform \<Rightarrow> string \<Rightarrow> string option \<Rightarrow> ('k, 'b) session \<Rightarrow> ('k, 'b) session" where
  "sendProgress pf p msg s =
     sendUpdate pf \<lparr>phase = p, message = msg, error = None, result = None, metadata = None\<rparr> s"

definition sendResult ::
  "(('r, 'm) SSEUpdate, 'k, 'b) platform \<Rightarrow> StreamOrchestratorConfig \<Rightarrow> 'r \<Rightarrow> ('k, 'b) session \<Rightarrow> ('k, 'b) session" where
  "sendResult pf config r s =
     sendUpdate pf \<lparr>phase = completePhase config, message = None, error = None, result = Some r,
                    metadata = None\<rparr> s"

text \<open>
  \<open>sendError(error, extra)\<close> builds \<open>{ phase, error, ...extra }\<close>: the fields of \<open>extra\<close>
  are written over the two.  \<open>extra\<close> is given by what spreading it does to an update.
\<close>

definition sendError ::
  "(('r, 'm) SSEUpdate, 'k, 'b) platform \<Rightarrow> StreamOrchestratorConfig \<Rightarrow> string
     \<Rightarrow> (('r, 'm) SSEUpdate \<Rightarrow> ('r, 'm) SSEUpdate) option \<Rightarrow> ('k, 'b) session \<Rightarrow> ('k, 'b) session" where
  "sendError pf config err extra s =
     (let base = \<lparr>phase = errorPhase config, message = None, error = Some err, result = None,
                  metadata = None\<rparr>
      in sendUpdate pf (case extra of None \<Rightarrow> base | Some spread \<Rightarrow> spread base) s)"

definition sendWithMetadata ::
  "(('r, 'm) SSEUpdate, 'k, 'b) platform \<Rightarrow> string \<Rightarrow> 'm \<Rightarrow> string option \<Rightarrow> ('k, 'b) session \<Rightarrow> ('k, 'b) session" where
  "sendWithMetadata pf p meta msg s =
     sendUpdate pf \<lparr>phase = p, message = msg, error = None, result = None, metadata = Some meta\<rparr> s"

text \<open>\<open>sendEvent(eventType, data)\<close>; \<open>stringify\<close> is \<open>JSON.stringify\<close> on the data.\<close>

definition sendEvent ::
  "('u, 'k, 'b) platform \<Rightarrow> ('d \<Rightarrow> js_value + string) \<Rightarrow> string \<Rightarrow> 'd \<Rightarrow> ('k, 'b) session \<Rightarrow> ('k, 'b) session" where
  "sendEvent pf stringify eventType d s =
     (if isClosed (orch s) then s
      else
        (case stringify d of
           Inl thrown \<Rightarrow>
             emit [Logger ''[stream-orchestrator] Error sending event:'']
               (s\<lparr>orch := (orch s)\<lparr>isClosed := True\<rparr>\<rparr>)
         | Inr json \<Rightarrow>
             (let payload = ''event: '' @ eventType @ [LF] @ ''data: '' @ json @ [LF, LF];
                  encoded = encode pf payload
              in case controller_enqueue pf encoded (controller s) of
                   (Some thrown, k) \<Rightarrow>
                     (let s1 = emit [Enqueue encoded (Some thrown)] (s\<lparr>controller := k\<rparr>)
                      in emit [Logger ''[stream-orchestrator] Error sending event:'']
                           (s1\<lparr>orch := (orch s1)\<lparr>isClosed := True\<rparr>\<rparr>))
                 | (None, k) \<Rightarrow> emit [Enqueue encoded None] (s\<lparr>controller := k\<rparr>))))"

definition startHeartbeat :: "StreamOrchestratorConfig \<Rightarrow> ('k, 'b) session \<Rightarrow> ('k, 'b) session" where
  "startHeartbeat config s =
     (if \<not> enabled (heartbeat config) \<or> heartbeatInterval (orch s) then s
      else s\<lparr>orch := (orch s)\<lparr>heartbeatInterval := True\<rparr>\<rparr>)"

text \<open>The callback of the interval timer; it runs only while the timer is set.\<close>

definition heartbeatTick ::
  "('u, 'k, 'b) platform \<Rightarrow> StreamOrchestratorConfig \<Rightarrow> ('k, 'b) session \<Rightarrow> ('k, 'b) session" where
  "heartbeatTick pf config s =
     (if \<not> heartbeatInterval (orch s) then s
      else if isClosed (orch s) then stopHeartbeat s
      else
        (let msg = (case HeartbeatConfig.message (heartbeat config) of Some m \<Rightarrow> m | None \<Rightarrow> ''heartbeat'');
             text = '': ['' @ msg @ '']'' @ [LF, LF];
             encoded = encode pf text
         in case controller_enqueue pf encoded (controller s) of
              (None, k) \<Rightarrow>
                (let s1 = emit [Enqueue encoded None] (s\<lparr>controller := k\<rparr>);
                     s2 = s1\<lparr>orch := (orch s1)\<lparr>bytesSent := bytesSent (orch s1) + length encoded\<rparr>\<rparr>
                 in emit [ObsHeartbeat] s2)
            | (Some thrown, k) \<Rightarrow>
                (let s1 = emit [Enqueue encoded (Some thrown)] (s\<lparr>controller := k\<rparr>);
                     s2 = stopHeartbeat (s1\<lparr>orch := (orch s1)\<lparr>isClosed := True\<rparr>\<rparr>);
                     s3 = s2\<lparr>orch := (orch s2)\<lparr>lastError := Some (toError thrown)\<rparr>\<rparr>
                 in emit (ObsError (toError thrown) #
                          (case thrown of
                             JsError n m \<Rightarrow>
                               if \<not> js_includes m ''Controller is already closed''
                               then [Logger ''[stream-orchestrator:heartbeat] Unexpected error:'']
                               else []
                           | JsOther v \<Rightarrow> [])) s3)))"

definition close ::
  "('u, 'k, 'b) platform \<Rightarrow> StreamOrchestratorConfig \<Rightarrow> int \<Rightarrow> ('k, 'b) session \<Rightarrow> ('k, 'b) session" where
  "close pf config now s =
     (if \<not> isClosed (orch s) then
        (let s1 = cleanupAbortListener config (stopHeartbeat s)
         in case controller_close pf (controller s1) of
              (None, k) \<Rightarrow>
                (let s2 = emit [ControllerClose None] (s1\<lparr>controller := k\<rparr>);
                     s3 = s2\<lparr>orch := (orch s2)\<lparr>isClosed := True\<rparr>\<rparr>;
                     durationMs = now - startTime (orch s3);
                     success = (lastError (orch s3) = None)
                 in emit [ObsStreamEnd durationMs success (lastError (orch s3))] s3)
            | (Some thrown, k) \<Rightarrow>
                emit [ControllerClose (Some thrown), Logger ''[stream-orchestrator] Error closing stream:'']
                  (s1\<lparr>controller := k\<rparr>))
      else s)"

definition abort ::
  "('u, 'k, 'b) platform \<Rightarrow> StreamOrchestratorConfig \<Rightarrow> int \<Rightarrow> string option \<Rightarrow> ('k, 'b) session \<Rightarrow> ('k, 'b) session" where
  "abort pf config now reason s =
     handleAbort pf config now (case reason of Some r \<Rightarrow> r | None \<Rightarrow> ''Stream aborted'') s"

record metrics =
  durationMs :: int
  bytesSent_m :: nat
  closed_m :: bool
  aborted_m :: bool

definition getMetrics :: "int \<Rightarrow> ('k, 'b) session \<Rightarrow> metrics" where
  "getMetrics now s =
     \<lparr>durationMs = now - startTime (orch s), bytesSent_m = bytesSent (orch s),
      closed_m = isClosed (orch s), aborted_m = isAborted (orch s)\<rparr>"


text \<open>The calls of the orchestrator's interface, and the two callbacks it registers.\<close>

datatype ('r, 'm, 'd) orchestrator_call =
    SendUpdate "('r, 'm) SSEUpdate"
  | SendProgress string "string option"
  | SendResult 'r
  | SendError string "(('r, 'm) SSEUpdate \<Rightarrow> ('r, 'm) SSEUpdate) option"
  | SendWithMetadata string 'm "string option"
  | SendEvent string 'd
  | StartHeartbeat
  | StopHeartbeat
  | HeartbeatTick
  | Close int
  | Abort int "string option"
  | SignalFires int

fun orchestrator_step ::
  "(('r, 'm) SSEUpdate, 'k, 'b) platform \<Rightarrow> ('d \<Rightarrow> js_value + string) \<Rightarrow> StreamOrchestratorConfig
     \<Rightarrow> ('r, 'm, 'd) orchestrator_call \<Rightarrow> ('k, 'b) session \<Rightarrow> ('k, 'b) session" where
  "orchestrator_step pf stringify config (SendUpdate u) s = sendUpdate pf u s"
| "orchestrator_step pf stringify config (SendProgress p msg) s = sendProgress pf p msg s"
| "orchestrator_step pf stringify config (SendResult r) s = sendResult pf config r s"
| "orchestrator_step pf stringify config (SendError err extra) s = sendError pf config err extra s"
| "orchestrator_step pf stringify config (SendWithMetadata p meta msg) s = sendWithMetadata pf p meta msg s"
| "orchestrator_step pf stringify config (SendEvent eventType d) s = sendEvent pf stringify eventType d s"
| "orchestrator_step pf stringify config StartHeartbeat s = startHeartbeat config s"
| "orchestrator_step pf stringify config StopHeartbeat s = stopHeartbeat s"
| "orchestrator_step pf stringify config HeartbeatTick s = heartbeatTick pf config s"
| "orchestrator_step pf stringify config (Close now) s = close pf config now s"
| "orchestrator_step pf stringify config (Abort now reason) s = abort pf config now reason s"
| "orchestrator_step pf stringify config (SignalFires now) s = signalFires pf config now s"

fun orchestrator_run ::
  "(('r, 'm) SSEUpdate, 'k, 'b) platform \<Rightarrow> ('d \<Rightarrow> js_value + string) \<Rightarrow> StreamOrchestratorConfig
     \<Rightarrow> ('r, 'm, 'd) orchestrator_call list \<Rightarrow> ('k, 'b) session \<Rightarrow> ('k, 'b) session" where
  "orchestrator_run pf stringify config [] s = s"
| "orchestrator_run pf stringify config (c # cs) s =
     orchestrator_run pf stringify config cs (orchestrator_step pf stringify config c s)"

text \<open>The number of bytes that the calls \<open>controller.enqueue\<close> in a list of effects put into the sink.\<close>

fun enqueued_bytes :: "'b effect list \<Rightarrow> nat" where
  "enqueued_bytes [] = 0"
| "enqueued_bytes (Enqueue bytes None # es) = length bytes + enqueued_bytes es"
| "enqueued_bytes (e # es) = enqueued_bytes es"

text \<open>The bytes a call puts into the sink, run in the session \<open>s\<close>.\<close>

definition bytes_written_by ::
  "(('r, 'm) SSEUpdate, 'k, 'b) platform \<Rightarrow> ('d \<Rightarrow> js_value + string) \<Rightarrow> StreamOrchestratorConfig
     \<Rightarrow> ('r, 'm, 'd) orchestrator_call \<Rightarrow> ('k, 'b) session \<Rightarrow> nat" where
  "bytes_written_by pf stringify config c s =
     enqueued_bytes (drop (length (effects s)) (effects (orchestrator_step pf stringify config c s)))"

text \<open>\<open>sendUpdate\<close>, the calls that go through it, and the heartbeat.\<close>

fun is_update_or_heartbeat :: "('r, 'm, 'd) orchestrator_call \<Rightarrow> bool" where
  "is_update_or_heartbeat (SendUpdate u) = True"
| "is_update_or_heartbeat (SendProgress p msg) = True"
| "is_update_or_heartbeat (SendResult r) = True"
| "is_update_or_heartbeat (SendError err extra) = True"
| "is_update_or_heartbeat (SendWithMetadata p meta msg) = True"
| "is_update_or_heartbeat HeartbeatTick = True"
| "is_update_or_heartbeat c = False"

fun is_sendEvent :: "('r, 'm, 'd) orchestrator_call \<Rightarrow> bool" where
  "is_sendEvent (SendEvent eventType d) = True"
| "is_sendEvent c = False"

text \<open>
  Along a run: the bytes written by the calls that satisfy \<open>sel\<close>.
\<close>

fun bytes_written_where ::
  "(('r, 'm, 'd) orchestrator_call \<Rightarrow> bool) \<Rightarrow> (('r, 'm) SSEUpdate, 'k, 'b) platform \<Rightarrow> ('d \<Rightarrow> js_value + string)
     \<Rightarrow> StreamOrchestratorConfig \<Rightarrow> ('r, 'm, 'd) orchestrator_call list \<Rightarrow> ('k, 'b) session \<Rightarrow> nat" where
  "bytes_written_where sel pf stringify config [] s = 0"
| "bytes_written_where sel pf stringify config (c # cs) s =
     (if sel c then bytes_written_by pf stringify config c s else 0)
     + bytes_written_where sel pf stringify config cs (orchestrator_step pf stringify config c s)"

text \<open>
  A controller for concrete runs, as the Streams standard has
  \<open>ReadableStreamDefaultController\<close>: it takes chunks while the stream is readable and
  \<open>close\<close> has not been called; then \<open>enqueue\<close> and \<open>close\<close> both throw a TypeError.
\<close>

record 'b stream_controller =
  accepting :: bool
  queue :: "'b list list"

definition controller_TypeError :: js_value where
  "controller_TypeError = JsError ''TypeError'' ''Invalid state: Controller is already closed''"

definition stream_enqueue :: "'b list \<Rightarrow> 'b stream_controller \<Rightarrow> js_value option \<times> 'b stream_controller" where
  "stream_enqueue chunk c =
     (if accepting c then (None, c\<lparr>queue := queue c @ [chunk]\<rparr>) else (Some controller_TypeError, c))"

definition stream_close :: "'b stream_controller \<Rightarrow> js_value option \<times> 'b stream_controller" where
  "stream_close c =
     (if accepting c then (None, c\<lparr>accepting := False\<rparr>) else (Some controller_TypeError, c))"

text \<open>
  The platform of the concrete runs: updates that have a phase only, whose JSON text
  is \<open>{"phase":"..."}\<close>, and ASCII text, whose UTF-8 bytes are its code units.
\<close>

definition example_platform :: "((unit, unit) SSEUpdate, char stream_controller, char) platform" where
  "example_platform =
     \<lparr>JSON_stringify = (\<lambda>u. Inr (''{\"phase\":\"'' @ phase u @ ''\"}'')),
      encode = (\<lambda>text. text),
      controller_enqueue = stream_enqueue,
      controller_close = stream_close\<rparr>"

definition example_update :: "(unit, unit) SSEUpdate" where
  "example_update = \<lparr>phase = ''test'', message = None, error = None, result = None, metadata = None\<rparr>"

text \<open>A stream that its consumer has cancelled: the controller takes nothing any more.\<close>

definition cancelled_stream :: "char stream_controller" where
  "cancelled_stream = \<lparr>accepting = False, queue = []\<rparr>"

definition readable_stream :: "char stream_controller" where
  "readable_stream = \<lparr>accepting = True, queue = []\<rparr>"

definition example_retry_env :: "(bool, tracked) retry_env" where
  "example_retry_env =
     \<lparr>operation = (\<lambda>i. if i = 0 then Inl (JsError ''TypeError'' ''Failed to fetch'')
                        else Inl (JsError ''Error'' ''Request aborted'')),
      signalAborted = (\<lambda>i. False), abortedInSleep = (\<lambda>i. False), random = (\<lambda>i. Integral 0)\<rparr>"



definition no_jitter_config :: "tracked RetryConfig" where
  "no_jitter_config = (DEFAULT_RETRY_CONFIG tracked_ops)\<lparr>jitter := False\<rparr>"

text \<open>The send operations.\<close>

fun is_send :: "('r, 'm, 'd) orchestrator_call \<Rightarrow> bool" where
  "is_send (SendUpdate u) = True"
| "is_send (SendProgress p msg) = True"
| "is_send (SendResult r) = True"
| "is_send (SendError err extra) = True"
| "is_send (SendWithMetadata p meta msg) = True"
| "is_send (SendEvent t d) = True"
| "is_send c = False"


section \<open>Properties of the codec\<close>

subsection \<open>Splitting and joining\<close>

lemma startsWith_take: "startsWith s p \<longleftrightarrow> take (length p) s = p"
  by (induction s p rule: startsWith.induct) auto

lemma js_split_nonempty: "sep \<noteq> [] \<Longrightarrow> js_split sep s \<noteq> []"
  by (cases s) (auto split: list.splits)

lemma js_split_skip:
  assumes "sep \<noteq> []" "hd sep \<notin> set l"
  shows "js_split sep (l @ s) = (case js_split sep s of [] \<Rightarrow> [l] | r # rs \<Rightarrow> (l @ r) # rs)"
  using assms
proof (induction l)
  case Nil
  then show ?case using js_split_nonempty [of sep s] by (simp split: list.splits)
next
  case (Cons c l)
  then have "\<not> startsWith (c # l @ s) sep" by (cases sep) auto
  with Cons show ?case by (auto split: list.splits)
qed

lemma js_split_LF_join:
  "\<forall>l \<in> set ls. LF \<notin> set l \<Longrightarrow> ls \<noteq> [] \<Longrightarrow> js_split [LF] (join [LF] ls) = ls"
proof (induction "[LF]" ls rule: join.induct)
  case 1 then show ?case by simp
next
  case (2 l)
  then show ?case using js_split_skip [of "[LF]" l "[]"] by simp
next
  case (3 l l' ls)
  then show ?case using js_split_skip [of "[LF]" l "LF # join [LF] (l' # ls)"] by simp
qed

lemma join_hd: "ls \<noteq> [] \<Longrightarrow> hd ls \<noteq> [] \<Longrightarrow> join sep ls \<noteq> [] \<and> hd (join sep ls) = hd (hd ls)"
  by (induction sep ls rule: join.induct) auto

lemma js_split_LFLF_join:
  "\<forall>l \<in> set ls. l \<noteq> [] \<and> LF \<notin> set l \<Longrightarrow> ls \<noteq> [] \<Longrightarrow>
   js_split [LF, LF] (join [LF] ls @ [LF, LF]) = [join [LF] ls, []]"
proof (induction "[LF]" ls rule: join.induct)
  case 1 then show ?case by simp
next
  case (2 l)
  then show ?case using js_split_skip [of "[LF, LF]" l "[LF, LF]"] by simp
next
  case (3 l l' ls)
  let ?rest = "join [LF] (l' # ls)"
  from 3 have "l' \<noteq> []" "LF \<notin> set l'" by auto
  then have "hd l' \<noteq> LF" by (metis hd_in_set)
  with \<open>l' \<noteq> []\<close> have ne: "?rest \<noteq> []" and h: "hd ?rest \<noteq> LF"
    using join_hd [of "l' # ls" "[LF]"] by auto
  then obtain c cs where rc: "?rest = c # cs" "c \<noteq> LF" by (cases ?rest) auto
  have ih: "js_split [LF, LF] (?rest @ [LF, LF]) = [?rest, []]" using 3 by simp
  have "js_split [LF, LF] (LF # ?rest @ [LF, LF]) = [LF # ?rest, []]"
    using ih rc by simp
  then show ?case using 3 js_split_skip [of "[LF, LF]" l "LF # ?rest @ [LF, LF]"] by simp
qed

lemma startsWith_append: "startsWith s p \<Longrightarrow> startsWith (s @ y) p"
  by (induction s p rule: startsWith.induct) auto

lemma startsWith_length: "startsWith s p \<Longrightarrow> length p \<le> length s"
  by (induction s p rule: startsWith.induct) auto

lemma startsWith_append_long: "length p \<le> length s \<Longrightarrow> startsWith (s @ y) p = startsWith s p"
  by (simp add: startsWith_take)

lemma js_split_short: "length s < length sep \<Longrightarrow> js_split sep s = [s]"
proof (induction s)
  case Nil then show ?case by auto
next
  case (Cons c cs)
  then have "\<not> startsWith (c # cs) sep" using startsWith_length [of "c # cs" sep] by auto
  with Cons show ?case by auto
qed

lemma join_Cons_hd: "join sep ((c # r) # rs) = c # join sep (r # rs)"
  by (cases rs) auto

lemma join_js_split: "sep \<noteq> [] \<Longrightarrow> join sep (js_split sep s) = s"
proof (induction sep s rule: js_split.induct)
  case (1 sep) then show ?case by simp
next
  case (2 sep c cs)
  show ?case
  proof (cases "startsWith (c # cs) sep")
    case True
    obtain r rs where R: "js_split sep (drop (length sep) (c # cs)) = r # rs"
      using js_split_nonempty [OF 2(4)] by (meson list.exhaust)
    have "join sep (r # rs) = drop (length sep) (c # cs)" using 2(2) [OF 2(4) True] 2(4) R by simp
    moreover have "take (length sep) (c # cs) = sep" using True by (simp add: startsWith_take)
    ultimately have "sep @ join sep (r # rs) = c # cs" by (metis append_take_drop_id)
    then show ?thesis using True 2(4) R by simp
  next
    case False
    obtain r rs where R: "js_split sep cs = r # rs"
      using js_split_nonempty [OF 2(4)] by (meson list.exhaust)
    then show ?thesis using False 2(3) [OF 2(4) False] 2(4) by (simp add: join_Cons_hd)
  qed
qed

lemma js_split_append:
  "sep \<noteq> [] \<Longrightarrow>
   js_split sep (x @ y) = butlast (js_split sep x) @ js_split sep (last (js_split sep x) @ y)"
proof (induction sep x rule: js_split.induct)
  case (1 sep) then show ?case by simp
next
  case (2 sep c cs)
  note ne = 2(4)
  show ?case
  proof (cases "startsWith (c # cs) sep")
    case True
    let ?d = "drop (length sep) (c # cs)"
    have sw: "startsWith ((c # cs) @ y) sep" using True by (rule startsWith_append)
    have dr: "drop (length sep) ((c # cs) @ y) = ?d @ y"
      using startsWith_length [OF True] by (subst drop_append) simp
    have R: "js_split sep ?d \<noteq> []" using js_split_nonempty [OF ne] .
    have "js_split sep ((c # cs) @ y) = [] # js_split sep (?d @ y)"
      using sw dr ne by simp
    also have "\<dots> = [] # butlast (js_split sep ?d) @ js_split sep (last (js_split sep ?d) @ y)"
      using 2(2) [OF ne True ne] by simp
    finally show ?thesis using True ne R by simp
  next
    case False
    show ?thesis
    proof (cases "length (c # cs) < length sep")
      case True
      then show ?thesis using js_split_short [of "c # cs" sep] by simp
    next
      case long: False
      then have nsw: "\<not> startsWith ((c # cs) @ y) sep"
        using False startsWith_append_long [of sep "c # cs" y] by simp
      obtain r rs where R: "js_split sep cs = r # rs"
        using js_split_nonempty [OF ne] by (meson list.exhaust)
      have ih: "js_split sep (cs @ y) = butlast (r # rs) @ js_split sep (last (r # rs) @ y)"
        using 2(3) [OF ne False ne] R by simp
      show ?thesis
      proof (cases rs)
        case Nil
        then have "r = cs" using join_js_split [OF ne, of cs] R by simp
        then show ?thesis using Nil R False nsw ne by simp
      next
        case (Cons r' rs')
        then show ?thesis using R False nsw ne ih by simp
      qed
    qed
  qed
qed

lemma trim_id: "s \<noteq> [] \<Longrightarrow> \<not> isWhiteSpace (hd s) \<Longrightarrow> \<not> isWhiteSpace (last s) \<Longrightarrow> trim s = s"
proof -
  assume a: "s \<noteq> []" "\<not> isWhiteSpace (hd s)" "\<not> isWhiteSpace (last s)"
  then have 1: "dropWhile isWhiteSpace s = s" by (cases s) auto
  obtain xs x where sx: "s = xs @ [x]" using a(1) by (metis append_butlast_last_id)
  then have 2: "dropWhile isWhiteSpace (rev s) = rev s" using a(3) by simp
  show ?thesis by (simp add: trim_def 1 2)
qed

lemma join_nonempty: "ls \<noteq> [] \<Longrightarrow> last ls \<noteq> [] \<Longrightarrow> join sep ls \<noteq> []"
  by (induction sep ls rule: join.induct) auto

lemma join_last: "ls \<noteq> [] \<Longrightarrow> last ls \<noteq> [] \<Longrightarrow> last (join sep ls) = last (last ls)"
  by (induction sep ls rule: join.induct) (auto simp: join_nonempty)

lemma nat_to_string_digits: "set (nat_to_string n) \<subseteq> set ''0123456789''"
proof (induction n rule: nat_to_string.induct)
  case (1 n)
  have d: "\<And>k. k < 10 \<Longrightarrow> ''0123456789'' ! k \<in> set ''0123456789''"
    by (rule nth_mem) simp
  show ?case
  proof (cases "n < 10")
    case True
    then show ?thesis using d [of n] by (subst nat_to_string.simps) simp
  next
    case False
    have "n mod 10 < 10" by simp
    then show ?thesis using False 1 d [of "n mod 10"] by (subst nat_to_string.simps) simp
  qed
qed

lemma Number_toString_no_LF: "LF \<notin> set (Number_toString i)"
  using nat_to_string_digits [of "nat i"] nat_to_string_digits [of "nat (- i)"]
  by (auto simp: Number_toString_def LF_def)

lemma parse_message_lines:
  assumes "ls \<noteq> []" "\<forall>l \<in> set ls. l \<noteq> [] \<and> LF \<notin> set l"
      and "\<not> isWhiteSpace (hd (hd ls))" "\<not> isWhiteSpace (last (last ls))"
  shows "parse_message P (join [LF] ls) = concat (map (parse_line P) ls)"
proof -
  have h: "hd ls \<noteq> []" and l: "last ls \<noteq> []" using assms(1,2) by auto
  have ne: "join [LF] ls \<noteq> []" using join_nonempty [OF assms(1) l] .
  have "trim (join [LF] ls) = join [LF] ls"
    using trim_id [OF ne] join_hd [OF assms(1) h, of "[LF]"] join_last [OF assms(1) l, of "[LF]"] assms(3,4)
    by simp
  moreover have "js_split [LF] (join [LF] ls) = ls"
    using js_split_LF_join [of ls] assms(1,2) by simp
  ultimately show ?thesis using ne by (simp add: parse_message_def)
qed

lemma parse_frame_text:
  assumes hs: "\<forall>l \<in> set hs. l \<noteq> [] \<and> LF \<notin> set l \<and> \<not> isWhiteSpace (hd l) \<and> parse_line P l = []"
      and rt: "P json = Some d"
      and json: "LF \<notin> set json" "json \<noteq> []" "\<not> isWhiteSpace (last json)"
  shows "parse P [] (join [LF] (hs @ [''data: '' @ json]) @ [LF, LF]) = ([], [OnMessage d])"
proof -
  let ?ls = "hs @ [''data: '' @ json]"
  have dl: "parse_line P (''data: '' @ json) = [OnMessage d]"
    using rt by (simp add: parse_line_def)
  have clean: "\<forall>l \<in> set ?ls. l \<noteq> [] \<and> LF \<notin> set l"
    using hs json by (auto simp: LF_def)
  have first: "\<not> isWhiteSpace (hd (hd ?ls))"
    using hs by (cases hs) (auto simp: isWhiteSpace_def)
  have lst: "\<not> isWhiteSpace (last (last ?ls))" using json by simp
  have "js_split [LF, LF] (join [LF] ?ls @ [LF, LF]) = [join [LF] ?ls, []]"
    using js_split_LFLF_join [of ?ls] clean by simp
  moreover have "parse_message P (join [LF] ?ls) = concat (map (parse_line P) ?ls)"
    using parse_message_lines [of ?ls P] clean first lst by simp
  moreover have "concat (map (parse_line P) ?ls) = [OnMessage d]"
    using hs dl by simp
  ultimately show ?thesis by (simp add: parse_def)
qed

lemma header_lines_clean:
  assumes "\<forall>i. id m = Some i \<longrightarrow> LF \<notin> set i" "\<forall>e. event m = Some e \<longrightarrow> LF \<notin> set e"
  shows "\<forall>l \<in> set ((case id m of Some i \<Rightarrow> [''id: '' @ i] | None \<Rightarrow> [])
                   @ (case retry m of Some r \<Rightarrow> [''retry: '' @ Number_toString r] | None \<Rightarrow> [])
                   @ (case event m of Some e \<Rightarrow> [''event: '' @ e] | None \<Rightarrow> [])).
           l \<noteq> [] \<and> LF \<notin> set l \<and> \<not> isWhiteSpace (hd l) \<and> parse_line P l = []"
  using assms Number_toString_no_LF
  by (auto simp: LF_def isWhiteSpace_def parse_line_def split: option.splits)


lemma feed_split: "feed P b [a, c] = feed P b [a @ c]"
proof -
  let ?M = "js_split [LF, LF] (b @ a)"
  let ?M' = "js_split [LF, LF] (last ?M @ c)"
  have M: "?M \<noteq> []" and M': "?M' \<noteq> []" by (simp_all add: js_split_nonempty)
  have "js_split [LF, LF] (b @ a @ c) = butlast ?M @ ?M'"
    using js_split_append [of "[LF, LF]" "b @ a" c] by simp
  then show ?thesis using M M' by (simp add: parse_def Let_def butlast_append)
qed

lemma js_split_no_separator: "sep \<noteq> [] \<Longrightarrow> \<not> js_includes s sep \<Longrightarrow> js_split sep s = [s]"
  by (induction s) auto

lemma parse_no_terminator:
  "\<not> js_includes (b @ a) [LF, LF] \<Longrightarrow> parse P b a = (b @ a, [])"
  by (simp add: parse_def Let_def js_split_no_separator)

lemma js_split_proper_prefix:
  assumes "sep \<noteq> []" "js_split sep (p @ q) = [x, []]" "q \<noteq> []"
  shows "js_split sep p = [p]"
proof -
  let ?M = "js_split sep p"
  let ?M' = "js_split sep (last ?M @ q)"
  have M: "?M \<noteq> []" and M': "?M' \<noteq> []" using assms(1) by (simp_all add: js_split_nonempty)
  have eq: "butlast ?M @ ?M' = [x, []]" using js_split_append [OF assms(1), of p q] assms(2) by simp
  have "butlast ?M = []"
  proof (rule ccontr)
    assume "butlast ?M \<noteq> []"
    then have "length (butlast ?M) \<ge> 1" by (cases "butlast ?M") auto
    moreover have "length ?M' \<ge> 1" using M' by (cases ?M') auto
    moreover have "length (butlast ?M) + length ?M' = 2" using eq by (metis length_append length_Cons list.size(3) Suc_1 One_nat_def)
    ultimately have "length (butlast ?M) = 1" "length ?M' = 1" by auto
    then have "?M' = [[]]" using eq by (cases "butlast ?M"; cases ?M') auto
    then have "last ?M @ q = []" using join_js_split [OF assms(1), of "last ?M @ q"] by simp
    then show False using assms(3) by simp
  qed
  then obtain r where "?M = [r]" using M by (metis append_butlast_last_id append_Nil)
  then show ?thesis using join_js_split [OF assms(1), of p] by simp
qed


subsection \<open>Round trip\<close>

text \<open>
  C1 (as amended).  Take a frame record whose data is JSON-serializable
  (\<open>JSON.stringify\<close> returns a text, on one line, not ending in white space, that
  \<open>JSON.parse\<close> reads back as the data) and whose \<open>id\<close> and \<open>event\<close>, when set, contain no
  line feed.  Then \<open>formatSSEMessage\<close> returns a text, and a fresh parser fed that text
  makes exactly one callback, \<open>onMessage\<close>, with the original data, and keeps an empty
  buffer.
\<close>

theorem formatSSEMessage_parse_roundtrip:
  assumes "stringify (data m) = Inr json"
      and "JSON_parse json = Some (data m)"
      and "LF \<notin> set json" "json \<noteq> []" "\<not> isWhiteSpace (last json)"
      and "\<forall>i. id m = Some i \<longrightarrow> LF \<notin> set i"
      and "\<forall>e. event m = Some e \<longrightarrow> LF \<notin> set e"
  shows "\<exists>text. formatSSEMessage stringify m = Inr text
           \<and> parse JSON_parse [] text = ([], [OnMessage (data m)])"
proof -
  note hs = header_lines_clean [OF assms(6,7), of JSON_parse]
  show ?thesis
    using assms(1) parse_frame_text [OF hs assms(2,3,4,5)]
    by (simp add: formatSSEMessage_def)
qed

text \<open>C1, witness: the frame with id 42, retry 5000, event \<open>done\<close> and data \<open>true\<close>.\<close>

theorem formatSSEMessage_parse_roundtrip_witness:
  "\<exists>text. formatSSEMessage lit_stringify example_frame = Inr text
     \<and> parse lit_parse [] text = ([], [OnMessage True])"
  using formatSSEMessage_parse_roundtrip [of lit_stringify example_frame "''true''" lit_parse]
  by (simp add: example_frame_def lit_parse_def trim_def isWhiteSpace_def LF_def)

text \<open>
  C1 as stated fails: the data \<open>true\<close> is JSON-serializable, but with the id
  \<open>"1\ndata: false"\<close> the encoded frame has two \<open>data:\<close> lines, and the parser calls
  \<open>onMessage\<close> twice, first with \<open>false\<close>.
\<close>

theorem roundtrip_newline_in_id_counterexample:
  "lit_stringify True = Inr ''true'' \<and> lit_parse ''true'' = Some True
   \<and> formatSSEMessage lit_stringify \<lparr>id = Some ''1\<newline>data: false'', event = None, data = True, retry = None\<rparr>
       = Inr ''id: 1\<newline>data: false\<newline>data: true\<newline>\<newline>''
   \<and> parse lit_parse [] ''id: 1\<newline>data: false\<newline>data: true\<newline>\<newline>''
       = ([], [OnMessage False, OnMessage True])"
  by (simp add: formatSSEMessage_def LF_def parse_def parse_message_def parse_line_def
        lit_parse_def trim_def isWhiteSpace_def)

subsection \<open>Chunk boundaries\<close>

text \<open>
  C2 (as amended).  For a frame as in C1 and every position \<open>k\<close>, feeding the encoded
  text cut at \<open>k\<close> in two calls gives the same buffer and the same callbacks as feeding
  it whole: exactly one \<open>onMessage\<close> with the data.  While a proper prefix of the text
  has arrived, the parser has made no callback, so it has attempted no \<open>JSON.parse\<close>.
  (\<open>feed_split\<close> and \<open>parse_no_terminator\<close> give both facts for any text.)
\<close>

theorem parse_chunk_split_invariance:
  assumes "stringify (data m) = Inr json"
      and "JSON_parse json = Some (data m)"
      and "LF \<notin> set json" "json \<noteq> []" "\<not> isWhiteSpace (last json)"
      and "\<forall>i. id m = Some i \<longrightarrow> LF \<notin> set i"
      and "\<forall>e. event m = Some e \<longrightarrow> LF \<notin> set e"
  shows "\<exists>text. formatSSEMessage stringify m = Inr text \<and>
           (\<forall>k. feed JSON_parse [] [take k text, drop k text] = feed JSON_parse [] [text]
               \<and> feed JSON_parse [] [take k text, drop k text] = ([], [OnMessage (data m)])
               \<and> (k < length text \<longrightarrow> snd (parse JSON_parse [] (take k text)) = []))"
proof -
  note hs = header_lines_clean [OF assms(6,7), of JSON_parse]
  define body where "body = join [LF]
     ((case id m of Some i \<Rightarrow> [''id: '' @ i] | None \<Rightarrow> [])
       @ (case retry m of Some r \<Rightarrow> [''retry: '' @ Number_toString r] | None \<Rightarrow> [])
       @ (case event m of Some e \<Rightarrow> [''event: '' @ e] | None \<Rightarrow> [])
       @ [''data: '' @ json])"
  define frame where "frame = body @ [LF, LF]"
  have fmt: "formatSSEMessage stringify m = Inr frame"
    using assms(1) by (simp add: formatSSEMessage_def frame_def body_def)
  have whole: "parse JSON_parse [] frame = ([], [OnMessage (data m)])"
    using parse_frame_text [OF hs assms(2,3,4,5)] by (simp add: frame_def body_def)
  then have sp: "js_split [LF, LF] frame = [body, []]"
    using hs assms(3,4)
      js_split_LFLF_join [of "(case id m of Some i \<Rightarrow> [''id: '' @ i] | None \<Rightarrow> [])
       @ (case retry m of Some r \<Rightarrow> [''retry: '' @ Number_toString r] | None \<Rightarrow> [])
       @ (case event m of Some e \<Rightarrow> [''event: '' @ e] | None \<Rightarrow> [])
       @ [''data: '' @ json]"]
    by (simp add: frame_def body_def LF_def)
  have "feed JSON_parse [] [take k frame, drop k frame] = feed JSON_parse [] [frame]
      \<and> feed JSON_parse [] [take k frame, drop k frame] = ([], [OnMessage (data m)])
      \<and> (k < length frame \<longrightarrow> snd (parse JSON_parse [] (take k frame)) = [])" for k
  proof -
    have a: "feed JSON_parse [] [take k frame, drop k frame] = feed JSON_parse [] [frame]"
      using feed_split [of JSON_parse "[]" "take k frame" "drop k frame"] by simp
    have b: "feed JSON_parse [] [frame] = ([], [OnMessage (data m)])" using whole by simp
    have c: "snd (parse JSON_parse [] (take k frame)) = []" if "k < length frame"
    proof -
      have "drop k frame \<noteq> []" using that by simp
      moreover have "js_split [LF, LF] (take k frame @ drop k frame) = [body, []]"
        using sp by simp
      ultimately have "js_split [LF, LF] (take k frame) = [take k frame]"
        using js_split_proper_prefix [of "[LF, LF]" "take k frame" "drop k frame"] by blast
      then show ?thesis by (simp add: parse_def Let_def)
    qed
    show ?thesis using a b c by simp
  qed
  then show ?thesis using fmt by blast
qed

text \<open>C2, witness: the example frame cut after \<open>retry\<close>.\<close>

theorem parse_chunk_split_invariance_witness:
  "feed lit_parse [] [''id: 42\<newline>retry'', '': 5000\<newline>event: done\<newline>data: true\<newline>\<newline>''] = ([], [OnMessage True])
   \<and> snd (parse lit_parse [] ''id: 42\<newline>retry'') = []"
proof -
  have f: "formatSSEMessage lit_stringify example_frame = Inr ''id: 42\<newline>retry: 5000\<newline>event: done\<newline>data: true\<newline>\<newline>''"
    by (simp add: formatSSEMessage_def example_frame_def LF_def Number_toString_def nat_to_string.simps)
  have "\<exists>text. formatSSEMessage lit_stringify example_frame = Inr text \<and>
           (\<forall>k. feed lit_parse [] [take k text, drop k text] = feed lit_parse [] [text]
               \<and> feed lit_parse [] [take k text, drop k text] = ([], [OnMessage (data example_frame)])
               \<and> (k < length text \<longrightarrow> snd (parse lit_parse [] (take k text)) = []))"
    using parse_chunk_split_invariance [of lit_stringify example_frame "''true''" lit_parse]
    by (simp add: example_frame_def lit_parse_def trim_def isWhiteSpace_def LF_def)
  then obtain frame where t: "formatSSEMessage lit_stringify example_frame = Inr frame"
     and k: "\<And>k. feed lit_parse [] [take k frame, drop k frame] = ([], [OnMessage (data example_frame)])
               \<and> (k < length frame \<longrightarrow> snd (parse lit_parse [] (take k frame)) = [])" by blast
  from t f have "frame = ''id: 42\<newline>retry: 5000\<newline>event: done\<newline>data: true\<newline>\<newline>''" by simp
  with k [of 12] show ?thesis by (simp add: example_frame_def)
qed

text \<open>
  C2 as stated fails: with the event \<open>"x\ndata: true"\<close> and the data \<open>false\<close>, feeding
  the encoded text in two pieces calls \<open>onMessage\<close> twice.
\<close>

theorem chunk_split_newline_in_event_counterexample:
  "lit_stringify False = Inr ''false'' \<and> lit_parse ''false'' = Some False
   \<and> formatSSEMessage lit_stringify \<lparr>id = None, event = Some ''x\<newline>data: true'', data = False, retry = None\<rparr>
       = Inr ''event: x\<newline>data: true\<newline>data: false\<newline>\<newline>''
   \<and> feed lit_parse [] [''event: x\<newline>data'', '': true\<newline>data: false\<newline>\<newline>'']
       = ([], [OnMessage True, OnMessage False])"
  by (simp add: formatSSEMessage_def LF_def parse_def parse_message_def parse_line_def
        lit_parse_def trim_def isWhiteSpace_def)

section \<open>Properties of the backoff delay\<close>




section \<open>Properties of the circuit breaker\<close>

subsection \<open>The failure threshold\<close>

lemma recordFailure_below:
  "failures b + 1 < failureThreshold cfg \<Longrightarrow>
   state (recordFailure cfg now e b) = state b \<and> failures (recordFailure cfg now e b) = failures b + 1
   \<and> resetTimeout (recordFailure cfg now e b) = resetTimeout b"
  by (simp add: recordFailure_def Let_def)

lemma recordFailure_reaching:
  "failureThreshold cfg \<le> failures b + 1 \<Longrightarrow>
   state (recordFailure cfg now e b) = OPEN \<and> failures (recordFailure cfg now e b) = failures b + 1
   \<and> resetTimeout (recordFailure cfg now e b) = Some (now + resetTimeoutMs cfg)
   \<and> lastFailureTime (recordFailure cfg now e b) = now"
  by (simp add: recordFailure_def Let_def setState_def scheduleHalfOpen_def)

lemma recordFailures_append:
  "recordFailures cfg (xs @ ys) b = recordFailures cfg ys (recordFailures cfg xs b)"
  by (induction xs arbitrary: b) auto

lemma recordFailures_below:
  "failures b + int (length fs) < failureThreshold cfg \<Longrightarrow>
   state (recordFailures cfg fs b) = state b \<and> failures (recordFailures cfg fs b) = failures b + int (length fs)"
proof (induction fs arbitrary: b)
  case Nil then show ?case by simp
next
  case (Cons f fs)
  obtain now e where f: "f = (now, e)" by (cases f)
  have "failures b + 1 < failureThreshold cfg" using Cons.prems by simp
  note one = recordFailure_below [OF this, of now e]
  have "failures (recordFailure cfg now e b) + int (length fs) < failureThreshold cfg"
    using Cons.prems one by simp
  from Cons.IH [OF this] one show ?case by (simp add: f)
qed

text \<open>
  C3.  From the initial state of a breaker with \<open>failureThreshold = N\<close>, after fewer
  than \<open>N\<close> failures recorded in a row \<open>getState()\<close> is \<open>closed\<close>, and when the \<open>N\<close>-th
  has been recorded it is \<open>open\<close>.
\<close>

theorem failure_threshold:
  "(int (length fs) < failureThreshold cfg \<longrightarrow>
      getState (recordFailures cfg fs createCircuitBreaker) = CLOSED)
   \<and> (fs \<noteq> [] \<and> int (length fs) = failureThreshold cfg \<longrightarrow>
      getState (recordFailures cfg fs createCircuitBreaker) = OPEN)"
proof (intro conjI impI)
  assume "int (length fs) < failureThreshold cfg"
  then show "getState (recordFailures cfg fs createCircuitBreaker) = CLOSED"
    using recordFailures_below [of createCircuitBreaker fs cfg]
    by (simp add: getState_def createCircuitBreaker_def)
next
  assume a: "fs \<noteq> [] \<and> int (length fs) = failureThreshold cfg"
  then obtain now e where fs: "fs = butlast fs @ [(now, e)]"
    by (metis append_butlast_last_id surj_pair)
  let ?b = "recordFailures cfg (butlast fs) createCircuitBreaker"
  have "int (length (butlast fs)) < failureThreshold cfg" using a by (cases fs) auto
  then have "failures ?b = int (length (butlast fs))"
    using recordFailures_below [of createCircuitBreaker "butlast fs" cfg]
    by (simp add: createCircuitBreaker_def)
  then have "failureThreshold cfg \<le> failures ?b + 1" using a by (cases fs) auto
  then have "state (recordFailure cfg now e ?b) = OPEN" using recordFailure_reaching by blast
  moreover have "recordFailures cfg fs createCircuitBreaker = recordFailure cfg now e ?b"
    using recordFailures_append [of cfg "butlast fs" "[(now, e)]" createCircuitBreaker] fs by simp
  ultimately show "getState (recordFailures cfg fs createCircuitBreaker) = OPEN"
    by (simp add: getState_def)
qed

text \<open>
  C3, witness: the default threshold 3, after two and after three failures.
\<close>

theorem failure_threshold_witness:
  "getState (recordFailures DEFAULT_CIRCUIT_BREAKER_CONFIG
      [(10, JsError ''Error'' ''fail''), (20, JsError ''Error'' ''fail'')] createCircuitBreaker) = CLOSED
   \<and> getState (recordFailures DEFAULT_CIRCUIT_BREAKER_CONFIG
      [(10, JsError ''Error'' ''fail''), (20, JsError ''Error'' ''fail''), (30, JsError ''Error'' ''fail'')]
      createCircuitBreaker) = OPEN"
  using failure_threshold [of "[(10, JsError ''Error'' ''fail''), (20, JsError ''Error'' ''fail'')]" DEFAULT_CIRCUIT_BREAKER_CONFIG]
        failure_threshold [of "[(10, JsError ''Error'' ''fail''), (20, JsError ''Error'' ''fail''), (30, JsError ''Error'' ''fail'')]" DEFAULT_CIRCUIT_BREAKER_CONFIG]
  by (simp add: DEFAULT_CIRCUIT_BREAKER_CONFIG_def)

subsection \<open>Refusal while open\<close>

text \<open>
  An open breaker refuses the call without invoking the operation; a closed or
  half-open one invokes it.  As long as \<open>forceOpen\<close> is not used, the timer of an open
  breaker is due \<open>resetTimeoutMs\<close> after the last recorded failure, and the refusal
  carries the time left until then.
\<close>

lemma execute_open_refuses:
  "state b = OPEN \<Longrightarrow>
   execute cfg isF now op settled b w =
     (Refused (''Circuit breaker is open. Retry in ''
                 @ Number_toString (Math_ceil_div_1000 (max 0 (resetTimeoutMs cfg - (now - lastFailureTime b)))) @ ''s'')
              (max 0 (resetTimeoutMs cfg - (now - lastFailureTime b))) (failures b), b, w)"
  by (simp add: execute_def canPass_def Let_def)

lemma execute_passes:
  "state b \<noteq> OPEN \<Longrightarrow>
   snd (snd (execute cfg isF now op settled b w)) = snd (op w)
   \<and> fst (execute cfg isF now op settled b w)
       = (case fst (op w) of Inr r \<Rightarrow> Returned r | Inl e \<Rightarrow> Rethrown e)"
  by (cases "state b"; cases "op w")
     (auto simp: execute_def canPass_def Let_def split: sum.splits)

lemma timer_aligned_create: "timer_aligned cfg createCircuitBreaker"
  by (simp add: timer_aligned_def createCircuitBreaker_def)

lemma timer_aligned_recordFailure:
  "timer_aligned cfg b \<Longrightarrow> state b \<noteq> OPEN \<or> failureThreshold cfg \<le> failures b + 1 \<Longrightarrow> timer_aligned cfg (recordFailure cfg now e b)"
  by (auto simp: timer_aligned_def recordFailure_def Let_def setState_def scheduleHalfOpen_def)

lemma timer_aligned_recordSuccess:
  "timer_aligned cfg b \<Longrightarrow> timer_aligned cfg (recordSuccess cfg b)"
  by (auto simp: timer_aligned_def recordSuccess_def reset_def Let_def setState_def)

lemma timer_aligned_reset: "timer_aligned cfg (reset b)"
  by (auto simp: timer_aligned_def reset_def setState_def)

lemma timer_aligned_timerFires:
  "timer_aligned cfg b \<Longrightarrow> timer_aligned cfg (timerFires now b)"
  by (auto simp: timer_aligned_def timerFires_def setState_def split: option.splits)

lemma execute_open_remaining:
  assumes "state b = OPEN" "timer_aligned cfg b"
  shows "\<exists>due msg. resetTimeout b = Some due
          \<and> execute cfg isF now op settled b w = (Refused msg (max 0 (due - now)) (failures b), b, w)"
proof -
  have "resetTimeout b = Some (lastFailureTime b + resetTimeoutMs cfg)"
    using assms by (simp add: timer_aligned_def)
  moreover have "lastFailureTime b + resetTimeoutMs cfg - now = resetTimeoutMs cfg - (now - lastFailureTime b)" by simp
  ultimately show ?thesis using execute_open_refuses [OF assms(1), of cfg isF now op settled w] by simp
qed

lemma timer_aligned_execute:
  "timer_aligned cfg b \<Longrightarrow> timer_aligned cfg (fst (snd (execute cfg isF now op settled b w)))"
  by (cases "state b")
     (auto simp: execute_def canPass_def timer_aligned_def recordFailure_def recordSuccess_def reset_def
        Let_def setState_def scheduleHalfOpen_def split: sum.splits prod.splits option.splits)

lemma timer_aligned_step:
  "timer_aligned cfg (fst s) \<Longrightarrow> \<not> is_ForceOpen c \<Longrightarrow> timer_aligned cfg (fst (breaker_step cfg c s))"
proof (cases s)
  case (Pair b w)
  assume a: "timer_aligned cfg (fst s)" "\<not> is_ForceOpen c"
  show ?thesis
  proof (cases c)
    case (Execute isF now op settled)
    then show ?thesis using a timer_aligned_execute [of cfg b isF now op settled w] Pair by simp
  next
    case (TimerFires now)
    then show ?thesis using a Pair
      by (auto simp: timer_aligned_def timerFires_def setState_def split: option.splits)
  next
    case Reset
    then show ?thesis using Pair by (auto simp: timer_aligned_def reset_def setState_def)
  next
    case (ForceOpen now)
    then show ?thesis using a by simp
  qed
qed

lemma timer_aligned_run:
  "timer_aligned cfg (fst s) \<Longrightarrow> \<forall>c \<in> set cs. \<not> is_ForceOpen c \<Longrightarrow> timer_aligned cfg (fst (breaker_run cfg cs s))"
  by (induction cs arbitrary: s) (auto simp: timer_aligned_step)

lemma execute_open_reports_time_to_probe:
  assumes "\<forall>c \<in> set cs. \<not> is_ForceOpen c"
      and "breaker_run cfg cs (createCircuitBreaker, w0) = (b, w)" "getState b = OPEN"
  shows "\<exists>due msg. resetTimeout b = Some due
          \<and> execute cfg isF now op settled b w = (Refused msg (max 0 (due - now)) (getFailures b), b, w)"
proof -
  have "timer_aligned cfg (fst (breaker_run cfg cs (createCircuitBreaker, w0)))"
    using timer_aligned_run [of cfg "(createCircuitBreaker, w0)" cs] assms(1)
    by (simp add: timer_aligned_create)
  then show ?thesis
    using assms(2,3) execute_open_remaining [of b cfg isF now op settled w]
    by (simp add: getState_def getFailures_def)
qed

text \<open>
  C4.  The claim: an open breaker rejects \<open>execute\<close> with a CircuitOpenError that
  carries the time left until the next recovery probe and the failure count.  Here
  the default breaker is opened by \<open>forceOpen()\<close> at time 1000000, so that the probe is
  due at 1030000, and \<open>execute\<close> is called at 1001000: the operation is not invoked and
  the failure count 3 is carried, but the time carried is 0, not 29000.
  \<open>forceOpen\<close> leaves \<open>lastFailureTime\<close> as it was.
\<close>

theorem execute_after_forceOpen_reports_zero:
  "getState (forceOpen DEFAULT_CIRCUIT_BREAKER_CONFIG 1000000 createCircuitBreaker) = OPEN
   \<and> resetTimeout (forceOpen DEFAULT_CIRCUIT_BREAKER_CONFIG 1000000 createCircuitBreaker) = Some 1030000
   \<and> execute DEFAULT_CIRCUIT_BREAKER_CONFIG None 1001000 (\<lambda>n::nat. (Inr True, Suc n)) 1001000
        (forceOpen DEFAULT_CIRCUIT_BREAKER_CONFIG 1000000 createCircuitBreaker) 0
      = (Refused ''Circuit breaker is open. Retry in 0s'' 0 3,
         forceOpen DEFAULT_CIRCUIT_BREAKER_CONFIG 1000000 createCircuitBreaker, 0)"
  by (simp add: execute_def canPass_def forceOpen_def setState_def scheduleHalfOpen_def getState_def
        createCircuitBreaker_def DEFAULT_CIRCUIT_BREAKER_CONFIG_def Let_def Math_ceil_div_1000_def
        Number_toString_def nat_to_string.simps)

subsection \<open>Failures of the operation\<close>

text \<open>
  C5 (as amended).  Without a custom \<open>isFailure\<close>, when the operation is invoked and
  throws, \<open>execute\<close> rethrows the thrown value unchanged; if the value is an instance of
  \<open>Error\<close> the failure is recorded and the failure count goes up by one; if it is not,
  the breaker is left as it was.
\<close>

theorem execute_rethrows_and_counts_errors:
  assumes "canPass b" "op w = (Inl thrown, w')"
  shows "fst (execute cfg None now op settled b w) = Rethrown thrown
         \<and> snd (snd (execute cfg None now op settled b w)) = w'
         \<and> (instanceofError thrown \<longrightarrow>
              getFailures (fst (snd (execute cfg None now op settled b w))) = getFailures b + 1)
         \<and> (\<not> instanceofError thrown \<longrightarrow> fst (snd (execute cfg None now op settled b w)) = b)"
  using assms
  by (auto simp: execute_def getFailures_def recordFailure_def Let_def setState_def scheduleHalfOpen_def)

text \<open>
  C5, witness: a new breaker and an operation that throws \<open>new Error('fail')\<close>.
\<close>

theorem execute_rethrows_and_counts_errors_witness:
  "fst (execute DEFAULT_CIRCUIT_BREAKER_CONFIG None 5 (\<lambda>n::nat. (Inl (JsError ''Error'' ''fail'') :: js_value + bool, Suc n)) 9 createCircuitBreaker 0)
     = Rethrown (JsError ''Error'' ''fail'')
   \<and> getFailures (fst (snd (execute DEFAULT_CIRCUIT_BREAKER_CONFIG None 5 (\<lambda>n::nat. (Inl (JsError ''Error'' ''fail'') :: js_value + bool, Suc n)) 9 createCircuitBreaker 0))) = 1"
  using execute_rethrows_and_counts_errors [of createCircuitBreaker "\<lambda>n::nat. (Inl (JsError ''Error'' ''fail'') :: js_value + bool, Suc n)" 0 "JsError ''Error'' ''fail''" 1 DEFAULT_CIRCUIT_BREAKER_CONFIG 5 9]
  by (simp add: canPass_def createCircuitBreaker_def getFailures_def)

text \<open>
  C5 as stated fails: an operation that throws the string \<open>'boom'\<close> has its value
  rethrown, but no failure is recorded; the failure count stays 0.
\<close>

theorem execute_non_Error_not_counted_counterexample:
  "execute DEFAULT_CIRCUIT_BREAKER_CONFIG None 5 (\<lambda>n::nat. (Inl (JsOther ''boom'') :: js_value + bool, Suc n)) 9 createCircuitBreaker 0
     = (Rethrown (JsOther ''boom''), createCircuitBreaker, 1)
   \<and> getFailures createCircuitBreaker = 0"
  by (simp add: execute_def canPass_def createCircuitBreaker_def getFailures_def)

section \<open>Properties of the retry loops\<close>

lemma startsWith_map: "startsWith s p \<Longrightarrow> startsWith (map f s) (map f p)"
  by (induction s p rule: startsWith.induct) auto

lemma js_includes_map: "js_includes s p \<Longrightarrow> js_includes (map f s) (map f p)"
  by (induction s) (auto dest: startsWith_map [where f = f])

lemma toLowerCase_aborted: "toLowerCase ''aborted'' = ''aborted''"
  by code_simp

lemma isCancellationError_by_words:
  "js_includes msg ''aborted'' \<or> n = ''AbortError'' \<Longrightarrow> isCancellationError (JsError n msg)"
  using js_includes_map [of msg "''aborted''" toLowerCase_unit] toLowerCase_aborted
  by (auto simp: toLowerCase_def)

text \<open>
  C6.  In \<open>withRetry\<close> and in the reconnection manager's \<open>execute\<close>, when an
  invocation of the operation throws an \<open>Error\<close> whose message contains \<open>aborted\<close> or
  whose name is \<open>AbortError\<close>, or the signal is aborted when the error is caught, the
  call throws that same value at once: the operation is not invoked again and no retry
  callback is made, whatever the number of attempts left and whatever the retry
  predicate.
\<close>

theorem cancellation_never_retried:
  assumes "retry_env.operation env i = Inl thrown"
      and "(\<exists>n msg. thrown = JsError n msg \<and> (js_includes msg ''aborted'' \<or> n = ''AbortError''))
           \<or> signalAborted env i"
  shows "(int i \<le> maxRetries config \<longrightarrow>
            withRetry_loop ops config shouldRetryFn env i lastErr = (Inl thrown, i + 1, []))
         \<and> manager_loop ops config env i st = (Inl thrown, st\<lparr>ReconnectionState.lastError := Some (toError thrown)\<rparr>, i + 1, [])"
proof -
  have c: "isCancellationError thrown \<or> signalAborted env i"
    using assms(2) isCancellationError_by_words by blast
  have "withRetry_loop ops config shouldRetryFn env i lastErr = (Inl thrown, i + 1, [])"
    if "int i \<le> maxRetries config"
    using that assms(1) c by (subst withRetry_loop.simps) auto
  moreover have "manager_loop ops config env i st = (Inl thrown, st\<lparr>ReconnectionState.lastError := Some (toError thrown)\<rparr>, i + 1, [])"
    using assms(1) c by (subst manager_loop.simps) (auto simp: Let_def)
  ultimately show ?thesis by blast
qed

text \<open>
  C6, witness: the second invocation throws \<open>new Error('Request aborted')\<close>, with
  three retries allowed and a predicate that would retry everything.
\<close>

theorem cancellation_never_retried_witness:
  "withRetry_loop tracked_ops (DEFAULT_RETRY_CONFIG tracked_ops) (\<lambda>e. True) example_retry_env 1 None
     = (Inl (JsError ''Error'' ''Request aborted''), 2, [])
   \<and> manager_loop tracked_ops (DEFAULT_RETRY_CONFIG tracked_ops) example_retry_env 1 (manager_reset (DEFAULT_RETRY_CONFIG tracked_ops))
     = (Inl (JsError ''Error'' ''Request aborted''),
        (manager_reset (DEFAULT_RETRY_CONFIG tracked_ops))\<lparr>ReconnectionState.lastError := Some (JsError ''Error'' ''Request aborted'')\<rparr>, 2, [])"
proof -
  have 1: "retry_env.operation example_retry_env 1 = Inl (JsError ''Error'' ''Request aborted'')"
    by (simp add: example_retry_env_def)
  have 2: "js_includes ''Request aborted'' ''aborted''" by simp
  show ?thesis
    using cancellation_never_retried [of example_retry_env 1 "JsError ''Error'' ''Request aborted''"
        "DEFAULT_RETRY_CONFIG tracked_ops" tracked_ops "\<lambda>e. True" None
        "manager_reset (DEFAULT_RETRY_CONFIG tracked_ops)"] 1 2
    by (simp add: DEFAULT_RETRY_CONFIG_def)
qed

text \<open>
  The whole run of \<open>withRetry\<close> on that operation, with jitter disabled: one retry after
  the network error, with a delay of 1000, then the cancellation ends it after two
  invocations.
\<close>

lemma withRetry_example:
  "withRetry tracked_ops no_jitter_config (Some (\<lambda>e. True)) example_retry_env
     = (Inl (JsError ''Error'' ''Request aborted''), 2,
        [(1, Integral 1000, JsError ''TypeError'' ''Failed to fetch'')])"
proof -
  have n: "\<not> isCancellationError (JsError ''TypeError'' ''Failed to fetch'')" by code_simp
  have c: "isCancellationError (JsError ''Error'' ''Request aborted'')" by code_simp
  have 1: "withRetry_loop tracked_ops no_jitter_config (\<lambda>e. True) example_retry_env 1
             (Some (JsError ''TypeError'' ''Failed to fetch''))
      = (Inl (JsError ''Error'' ''Request aborted''), 2, [])"
    using c by (subst withRetry_loop.simps)
      (simp add: example_retry_env_def no_jitter_config_def DEFAULT_RETRY_CONFIG_def)
  show ?thesis
    unfolding withRetry_def
    using n 1 by (subst withRetry_loop.simps)
      (simp add: example_retry_env_def no_jitter_config_def DEFAULT_RETRY_CONFIG_def
         calculateBackoffDelay_def tracked_ops_def exact_def in_range_def Let_def)
qed

section \<open>Properties of the stream orchestrator\<close>

subsection \<open>Bytes sent\<close>

lemma enqueued_bytes_append: "enqueued_bytes (xs @ ys) = enqueued_bytes xs + enqueued_bytes ys"
  by (induction xs rule: enqueued_bytes.induct) auto

lemma sendUpdate_delta:
  "\<exists>es. effects (sendUpdate pf u s) = effects s @ es
        \<and> bytesSent (orch (sendUpdate pf u s)) = bytesSent (orch s) + enqueued_bytes es"
  by (auto simp: sendUpdate_def sendUpdate_failed_def emit_def Let_def split: sum.splits option.splits prod.splits js_value.splits)

lemma heartbeatTick_delta:
  "\<exists>es. effects (heartbeatTick pf config s) = effects s @ es
        \<and> bytesSent (orch (heartbeatTick pf config s)) = bytesSent (orch s) + enqueued_bytes es"
  by (auto simp: heartbeatTick_def stopHeartbeat_def emit_def Let_def split: sum.splits option.splits prod.splits js_value.splits)

lemma sendEvent_delta:
  "\<exists>es. effects (sendEvent pf stringify t d s) = effects s @ es
        \<and> bytesSent (orch (sendEvent pf stringify t d s)) = bytesSent (orch s)"
  by (auto simp: sendEvent_def emit_def Let_def split: sum.splits option.splits prod.splits)

lemma handleAbort_delta:
  "\<exists>es. effects (handleAbort pf config now reason s) = effects s @ es \<and> enqueued_bytes es = 0
        \<and> bytesSent (orch (handleAbort pf config now reason s)) = bytesSent (orch s)"
  by (auto simp: handleAbort_def stopHeartbeat_def cleanupAbortListener_def emit_def Let_def split: prod.splits)

lemma close_delta:
  "\<exists>es. effects (close pf config now s) = effects s @ es \<and> enqueued_bytes es = 0
        \<and> bytesSent (orch (close pf config now s)) = bytesSent (orch s)"
  by (auto simp: close_def stopHeartbeat_def cleanupAbortListener_def emit_def Let_def split: prod.splits option.splits)

lemma heartbeat_switch_delta:
  "effects (startHeartbeat config s) = effects s \<and> bytesSent (orch (startHeartbeat config s)) = bytesSent (orch s)"
  "effects (stopHeartbeat s) = effects s \<and> bytesSent (orch (stopHeartbeat s)) = bytesSent (orch s)"
  by (auto simp: startHeartbeat_def stopHeartbeat_def)

lemma orchestrator_step_delta:
  "\<exists>es. effects (orchestrator_step pf stringify config c s) = effects s @ es
        \<and> bytesSent (orch (orchestrator_step pf stringify config c s))
            = bytesSent (orch s) + (if is_update_or_heartbeat c then enqueued_bytes es else 0)
        \<and> (\<not> is_update_or_heartbeat c \<and> \<not> is_sendEvent c \<longrightarrow> enqueued_bytes es = 0)"
proof (cases c)
  case (SendUpdate u) then show ?thesis using sendUpdate_delta [of pf u s] by simp
next
  case (SendProgress p msg) then show ?thesis
    using sendUpdate_delta [of pf _ s] by (simp add: sendProgress_def)
next
  case (SendResult r) then show ?thesis
    using sendUpdate_delta [of pf _ s] by (simp add: sendResult_def)
next
  case (SendError err extra) then show ?thesis
    using sendUpdate_delta [of pf _ s] by (simp add: sendError_def Let_def)
next
  case (SendWithMetadata p meta msg) then show ?thesis
    using sendUpdate_delta [of pf _ s] by (simp add: sendWithMetadata_def)
next
  case (SendEvent t d) then show ?thesis using sendEvent_delta [of pf stringify t d s] by auto
next
  case StartHeartbeat then show ?thesis by (simp add: heartbeat_switch_delta)
next
  case StopHeartbeat then show ?thesis by (simp add: heartbeat_switch_delta)
next
  case HeartbeatTick then show ?thesis using heartbeatTick_delta [of pf config s] by simp
next
  case (Close now) then show ?thesis using close_delta [of pf config now s] by auto
next
  case (Abort now reason) then show ?thesis
    using handleAbort_delta [of pf config now _ s] by (auto simp: abort_def)
next
  case (SignalFires now) then show ?thesis
    using handleAbort_delta [of pf config now _ s] by (auto simp: signalFires_def)
qed

lemma orchestrator_step_bytes:
  "bytesSent (orch (orchestrator_step pf stringify config c s))
     = bytesSent (orch s) + (if is_update_or_heartbeat c then bytes_written_by pf stringify config c s else 0)"
  "enqueued_bytes (effects (orchestrator_step pf stringify config c s))
     = enqueued_bytes (effects s)
       + (if is_update_or_heartbeat c then bytes_written_by pf stringify config c s else 0)
       + (if is_sendEvent c then bytes_written_by pf stringify config c s else 0)"
proof -
  obtain es where es: "effects (orchestrator_step pf stringify config c s) = effects s @ es"
    and b: "bytesSent (orch (orchestrator_step pf stringify config c s))
            = bytesSent (orch s) + (if is_update_or_heartbeat c then enqueued_bytes es else 0)"
    and z: "\<not> is_update_or_heartbeat c \<and> \<not> is_sendEvent c \<longrightarrow> enqueued_bytes es = 0"
    using orchestrator_step_delta [of pf stringify config c s] by blast
  have w: "bytes_written_by pf stringify config c s = enqueued_bytes es"
    by (simp add: bytes_written_by_def es)
  show "bytesSent (orch (orchestrator_step pf stringify config c s))
     = bytesSent (orch s) + (if is_update_or_heartbeat c then bytes_written_by pf stringify config c s else 0)"
    using b w by simp
  have x: "\<not> (is_update_or_heartbeat c \<and> is_sendEvent c)" by (cases c) auto
  show "enqueued_bytes (effects (orchestrator_step pf stringify config c s))
     = enqueued_bytes (effects s)
       + (if is_update_or_heartbeat c then bytes_written_by pf stringify config c s else 0)
       + (if is_sendEvent c then bytes_written_by pf stringify config c s else 0)"
    using es w z x by (auto simp: enqueued_bytes_append)
qed

text \<open>
  C10.  After any run of calls on a session, the \<open>bytesSent\<close> that \<open>getMetrics\<close>
  returns is its value before the run plus the bytes put into the sink by \<open>sendUpdate\<close>,
  by the operations that go through it, and by the heartbeat.  All bytes put into the
  sink are those and the bytes of \<open>sendEvent\<close>, which \<open>bytesSent\<close> leaves out.
\<close>

theorem bytesSent_counts_updates_and_heartbeats:
  "bytesSent_m (getMetrics now (orchestrator_run pf stringify config cs s))
     = bytesSent (orch s) + bytes_written_where is_update_or_heartbeat pf stringify config cs s
   \<and> enqueued_bytes (effects (orchestrator_run pf stringify config cs s))
     = enqueued_bytes (effects s)
       + bytes_written_where is_update_or_heartbeat pf stringify config cs s
       + bytes_written_where is_sendEvent pf stringify config cs s"
proof (induction cs arbitrary: s)
  case Nil
  then show ?case by (simp add: getMetrics_def)
next
  case (Cons c cs)
  show ?case
    using Cons [of "orchestrator_step pf stringify config c s"]
          orchestrator_step_bytes [of pf stringify config c s]
    by (simp add: getMetrics_def)
qed

lemma newStreamOrchestrator_bytesSent: "bytesSent (orch (newStreamOrchestrator pf config now k)) = 0"
  by (auto simp: newStreamOrchestrator_def handleAbort_def stopHeartbeat_def cleanupAbortListener_def
        emit_def Let_def split: option.splits prod.splits)

text \<open>
  C10, witness: a new session on a readable stream; an update of 24 bytes, an
  event, a heartbeat of 15 bytes, then \<open>close()\<close> and two more calls that write nothing.
\<close>

theorem bytesSent_counts_updates_and_heartbeats_witness:
  "bytesSent_m (getMetrics 99 (orchestrator_run example_platform lit_stringify DEFAULT_CONFIG
       [SendUpdate example_update, SendEvent ''done'' True, StartHeartbeat, HeartbeatTick, Close 10,
        SendUpdate example_update, HeartbeatTick]
       (newStreamOrchestrator example_platform DEFAULT_CONFIG 0 readable_stream))) = 39
   \<and> bytes_written_where is_update_or_heartbeat example_platform lit_stringify DEFAULT_CONFIG
       [SendUpdate example_update, SendEvent ''done'' True, StartHeartbeat, HeartbeatTick, Close 10,
        SendUpdate example_update, HeartbeatTick]
       (newStreamOrchestrator example_platform DEFAULT_CONFIG 0 readable_stream) = 39"
proof -
  have run: "bytesSent_m (getMetrics 99 (orchestrator_run example_platform lit_stringify DEFAULT_CONFIG
       [SendUpdate example_update, SendEvent ''done'' True, StartHeartbeat, HeartbeatTick, Close 10,
        SendUpdate example_update, HeartbeatTick]
       (newStreamOrchestrator example_platform DEFAULT_CONFIG 0 readable_stream))) = 39"
    by (simp add: sendUpdate_def sendUpdate_failed_def sendEvent_def close_def newStreamOrchestrator_def
          DEFAULT_CONFIG_def example_platform_def example_update_def getMetrics_def startHeartbeat_def
          heartbeatTick_def DEFAULT_HEARTBEAT_CONFIG_def readable_stream_def stream_close_def
          stream_enqueue_def controller_TypeError_def LF_def stopHeartbeat_def cleanupAbortListener_def
          emit_def Let_def)
  show ?thesis
    using run
      bytesSent_counts_updates_and_heartbeats [of 99 example_platform lit_stringify DEFAULT_CONFIG
        "[SendUpdate example_update, SendEvent ''done'' True, StartHeartbeat, HeartbeatTick, Close 10,
          SendUpdate example_update, HeartbeatTick]"
        "newStreamOrchestrator example_platform DEFAULT_CONFIG 0 readable_stream"]
      newStreamOrchestrator_bytesSent [of example_platform DEFAULT_CONFIG 0 readable_stream]
    by simp
qed

subsection \<open>Closing, and sending afterwards\<close>

text \<open>
  While the closed flag is set, every send operation leaves the orchestrator and
  the controller as they are and does nothing but log.  \<open>abort\<close> always sets the flag;
  \<open>close\<close> on a session that is not closed, when \<open>controller.close()\<close> does not throw,
  stops the heartbeat, detaches the listener, closes the sink, sets the flag and calls
  \<open>onStreamEnd\<close> with success equal to whether no error had been recorded.
\<close>

lemma sendUpdate_closed:"isClosed (orch s) \<Longrightarrow>
   sendUpdate pf u s = emit [Logger (''[stream-orchestrator] Stream closed, skipping update: '' @ phase u)] s"
  by (simp add: sendUpdate_def)

lemma send_when_closed:
  assumes "isClosed (orch s)" "is_send c"
  shows "orch (orchestrator_step pf stringify config c s) = orch s
         \<and> controller (orchestrator_step pf stringify config c s) = controller s
         \<and> (\<exists>logged. effects (orchestrator_step pf stringify config c s) = effects s @ map Logger logged)"
proof -
  have u: "orch (sendUpdate pf u s) = orch s \<and> controller (sendUpdate pf u s) = controller s
         \<and> (\<exists>logged. effects (sendUpdate pf u s) = effects s @ map Logger logged)" for u
  proof -
    have 1: "effects (sendUpdate pf u s)
        = effects s @ map Logger [''[stream-orchestrator] Stream closed, skipping update: '' @ phase u]"
      using assms(1) by (simp add: sendUpdate_closed emit_def)
    have 2: "orch (sendUpdate pf u s) = orch s" "controller (sendUpdate pf u s) = controller s"
      using assms(1) by (simp_all add: sendUpdate_closed emit_def)
    show ?thesis using 1 2 by blast
  qed
  have e: "effects s = effects s @ map Logger []" by simp
  show ?thesis
  proof (cases c)
    case (SendEvent t d)
    then show ?thesis using assms(1) e by (auto simp: sendEvent_def)
  qed (use assms(2) u in \<open>auto simp: sendProgress_def sendResult_def sendError_def sendWithMetadata_def Let_def\<close>)
qed

lemma abort_closes: "isClosed (orch (abort pf config now reason s))"
  by (auto simp: abort_def handleAbort_def stopHeartbeat_def cleanupAbortListener_def emit_def Let_def
        split: prod.splits)

lemma close_postcondition:
  assumes "\<not> isClosed (orch s)" "controller_close pf (controller s) = (None, k)"
  shows "\<not> heartbeatInterval (orch (close pf config now s))
         \<and> (signal config \<noteq> None \<longrightarrow> \<not> abortHandler (orch (close pf config now s)))
         \<and> controller (close pf config now s) = k
         \<and> isClosed (orch (close pf config now s))
         \<and> effects (close pf config now s)
             = effects s @ [ControllerClose None,
                            ObsStreamEnd (now - startTime (orch s)) (lastError (orch s) = None) (lastError (orch s))]"
  using assms
  by (auto simp: close_def stopHeartbeat_def cleanupAbortListener_def emit_def Let_def)

text \<open>
  C9.  The claim: \<open>close()\<close> on a session that is not closed marks it closed and
  calls the stream-end hook, even when closing the sink throws.  Here the consumer has
  cancelled the stream, so that \<open>controller.close()\<close> throws: after \<open>close()\<close> the closed
  flag is still unset and the only effects are the failed call and a line of log;
  \<open>onStreamEnd\<close> is not called.  (\<open>handleAbort\<close> sets the flag and calls the hook before
  it tries to close the sink.)
\<close>

theorem close_on_cancelled_stream_stays_open:
  "isClosed (orch (newStreamOrchestrator example_platform DEFAULT_CONFIG 0 cancelled_stream)) = False
   \<and> close example_platform DEFAULT_CONFIG 10 (newStreamOrchestrator example_platform DEFAULT_CONFIG 0 cancelled_stream)
     = \<lparr>orch = \<lparr>isClosed = False, isAborted = False, heartbeatInterval = False, startTime = 0,
                 bytesSent = 0, lastError = None, abortHandler = False\<rparr>,
        controller = cancelled_stream,
        effects = [ObsStreamStart, ControllerClose (Some controller_TypeError),
                   Logger ''[stream-orchestrator] Error closing stream:'']\<rparr>"
  by (simp add: close_def newStreamOrchestrator_def DEFAULT_CONFIG_def example_platform_def
        cancelled_stream_def stream_close_def stopHeartbeat_def cleanupAbortListener_def emit_def Let_def)

text \<open>
  C8.  The claim: after \<open>close()\<close> has completed, \<open>sendUpdate\<close> writes nothing, does
  not throw and leaves the session state unchanged.  In the session above \<open>close()\<close> has
  completed with the closed flag unset, and \<open>sendUpdate\<close> goes on to call
  \<open>controller.enqueue\<close>: the call throws, the closed flag flips to set and the error
  becomes the last error.
\<close>

theorem sendUpdate_after_failed_close_changes_session:
  "getMetrics 20 (close example_platform DEFAULT_CONFIG 10
       (newStreamOrchestrator example_platform DEFAULT_CONFIG 0 cancelled_stream))
     = \<lparr>durationMs = 20, bytesSent_m = 0, closed_m = False, aborted_m = False\<rparr>
   \<and> lastError (orch (close example_platform DEFAULT_CONFIG 10
       (newStreamOrchestrator example_platform DEFAULT_CONFIG 0 cancelled_stream))) = None
   \<and> getMetrics 20 (sendUpdate example_platform example_update
       (close example_platform DEFAULT_CONFIG 10
         (newStreamOrchestrator example_platform DEFAULT_CONFIG 0 cancelled_stream)))
     = \<lparr>durationMs = 20, bytesSent_m = 0, closed_m = True, aborted_m = False\<rparr>
   \<and> lastError (orch (sendUpdate example_platform example_update
       (close example_platform DEFAULT_CONFIG 10
         (newStreamOrchestrator example_platform DEFAULT_CONFIG 0 cancelled_stream))))
     = Some controller_TypeError"
  by (simp add: sendUpdate_def sendUpdate_failed_def close_def newStreamOrchestrator_def DEFAULT_CONFIG_def
        example_platform_def example_update_def getMetrics_def
        cancelled_stream_def stream_close_def stream_enqueue_def controller_TypeError_def
        stopHeartbeat_def cleanupAbortListener_def emit_def Let_def)


end
